theory Spec2Isabelle
  imports Complex_Main
begin

section \<open>Strings\<close>

text \<open>
  The grocery manager (\<^verbatim>\<open>grocery_app.py\<close>, class \<^verbatim>\<open>GroceryManager\<close>) keeps its
  whole state in Python lists and dictionaries; \<^verbatim>\<open>app.py\<close> reads and writes the same
  objects through the module-level instance \<^verbatim>\<open>grocery_manager\<close>.

  A Python \<^verbatim>\<open>str\<close> is a sequence of Unicode code points, so text is a list of natural
  numbers here (an Isabelle \<open>char\<close> is one byte and cannot hold U+0301).
\<close>

type_synonym ustring = "nat list"

definition ascii :: "string \<Rightarrow> ustring" where
  "ascii s = map of_char s"

text \<open>Truthiness of an optional \<^verbatim>\<open>str\<close>: \<^verbatim>\<open>None\<close> and \<^verbatim>\<open>""\<close> are falsy.\<close>

definition truthy :: "ustring option \<Rightarrow> bool" where
  "truthy x = (case x of None \<Rightarrow> False | Some t \<Rightarrow> t \<noteq> [])"

section \<open>Python numbers\<close>

text \<open>
  Prices and budgets are Python floats (binary64): the seed data are float literals, and
  \<^verbatim>\<open>set_budget\<close>, \<^verbatim>\<open>update_catalog_item\<close> and \<^verbatim>\<open>add_catalog_item\<close> store
  \<^verbatim>\<open>float(_)\<close>. Quantities are Python ints. A float is identified with the real number it
  denotes; the infinities and NaN are not represented.

  The machine rounds the result of every float operation, so \<open>x + y\<close> of Python is not the
  sum of the reals. The operations are therefore parameters of the model, as the text
  functions of \<^verbatim>\<open>app.py\<close> are: the conversion of an int (\<^verbatim>\<open>float(i)\<close>, which the
  operators apply to an int operand that meets a float), the four arithmetic operators on
  two floats, and \<^verbatim>\<open>round(x, n)\<close> on a float. Comparisons are exact in Python, also
  between a float and an int, and are the comparisons of the reals.

  The conversion raises \<^verbatim>\<open>OverflowError\<close> on an int beyond the range of a float
  (about \<open>1.8 \<times> 10\<^sup>3\<^sup>0\<^sup>8\<close>); quantities are taken to lie within it.
\<close>

record float_lib =
  fl_of_int :: "int \<Rightarrow> real"
  fl_add :: "real \<Rightarrow> real \<Rightarrow> real"
  fl_sub :: "real \<Rightarrow> real \<Rightarrow> real"
  fl_mul :: "real \<Rightarrow> real \<Rightarrow> real"
  fl_div :: "real \<Rightarrow> real \<Rightarrow> real"
  fl_round :: "real \<Rightarrow> nat \<Rightarrow> real"

text \<open>
  A number is an int or a float: \<^verbatim>\<open>sum\<close> starts from the int \<^verbatim>\<open>0\<close>, and the
  percentage of a budget that is not positive is the int \<^verbatim>\<open>0\<close>.
\<close>

datatype number = PyInt int | PyFloat real

definition num_val :: "number \<Rightarrow> real" where
  "num_val x = (case x of PyInt i \<Rightarrow> of_int i | PyFloat r \<Rightarrow> r)"

definition py_float :: "float_lib \<Rightarrow> number \<Rightarrow> real" where
  "py_float F x = (case x of PyInt i \<Rightarrow> fl_of_int F i | PyFloat r \<Rightarrow> r)"

text \<open>
  \<^verbatim>\<open>a + b\<close>, \<^verbatim>\<open>a - b\<close> and \<^verbatim>\<open>a * b\<close>: exact on two ints, the float operation on the
  converted operands otherwise.
\<close>

definition py_add :: "float_lib \<Rightarrow> number \<Rightarrow> number \<Rightarrow> number" where
  "py_add F a b =
     (case (a, b) of
        (PyInt i, PyInt j) \<Rightarrow> PyInt (i + j)
      | _ \<Rightarrow> PyFloat (fl_add F (py_float F a) (py_float F b)))"

definition py_sub :: "float_lib \<Rightarrow> number \<Rightarrow> number \<Rightarrow> number" where
  "py_sub F a b =
     (case (a, b) of
        (PyInt i, PyInt j) \<Rightarrow> PyInt (i - j)
      | _ \<Rightarrow> PyFloat (fl_sub F (py_float F a) (py_float F b)))"

definition py_mul :: "float_lib \<Rightarrow> number \<Rightarrow> number \<Rightarrow> number" where
  "py_mul F a b =
     (case (a, b) of
        (PyInt i, PyInt j) \<Rightarrow> PyInt (i * j)
      | _ \<Rightarrow> PyFloat (fl_mul F (py_float F a) (py_float F b)))"

datatype py_error = ZeroDivisionError | KeyError

text \<open>\<^verbatim>\<open>a / b\<close> for a float \<open>b\<close>: it raises on a zero divisor.\<close>

definition py_truediv :: "float_lib \<Rightarrow> number \<Rightarrow> real \<Rightarrow> py_error + number" where
  "py_truediv F a b =
     (if b = 0 then Inl ZeroDivisionError else Inr (PyFloat (fl_div F (py_float F a) b)))"

text \<open>\<^verbatim>\<open>round(x, n)\<close> for \<open>n \<ge> 0\<close>: an int comes back as it is.\<close>

definition py_round :: "float_lib \<Rightarrow> number \<Rightarrow> nat \<Rightarrow> number" where
  "py_round F x n = (case x of PyInt i \<Rightarrow> PyInt i | PyFloat r \<Rightarrow> PyFloat (fl_round F r n))"

definition py_less :: "number \<Rightarrow> number \<Rightarrow> bool" where
  "py_less a b = (num_val a < num_val b)"

text \<open>\<^verbatim>\<open>sum(xs)\<close>: from the int \<^verbatim>\<open>0\<close>, adding from the left.\<close>

definition py_sum :: "float_lib \<Rightarrow> number list \<Rightarrow> number" where
  "py_sum F xs = foldl (py_add F) (PyInt 0) xs"

text \<open>The float that the literal \<^verbatim>\<open>0.1\<close> denotes: \<open>3602879701896397 / 2\<^sup>5\<^sup>5\<close>.\<close>

definition float_tenth :: real where
  "float_tenth = 3602879701896397 / 36028797018963968"

section \<open>Data model\<close>


text \<open>
  A catalogue item is a dict with the keys of the seed data. Items created by
  \<^verbatim>\<open>add_catalog_item\<close> have no \<^verbatim>\<open>default_quantity\<close> key, hence the option.
\<close>

record catalog_item =
  item_id :: ustring
  name :: ustring
  category :: ustring
  store :: ustring
  price :: real
  unit :: ustring
  default_quantity :: "int option"

text \<open>A cart entry is a copy of a catalogue item with the key \<^verbatim>\<open>quantity\<close> added.\<close>

record cart_entry = catalog_item +
  quantity :: int

text \<open>
  An archive entry. \<^verbatim>\<open>restore_from_archive\<close> reads the store with
  \<^verbatim>\<open>archive.get('store', None)\<close>, so the key may be missing: \<open>arch_store\<close> is an option.
\<close>

record archive =
  date :: ustring
  date_label :: ustring
  arch_store :: "ustring option"
  items :: "cart_entry list"
  item_count :: nat
  total_cost :: number

text \<open>
  The manager. \<^verbatim>\<open>stores\<close> is a dict from store name to a list of items; the code iterates
  over it in insertion order, so it is an association list. \<open>save_pending\<close> is the flag
  \<^verbatim>\<open>_save_pending\<close>; the timer thread that later clears it is not modelled.
\<close>

record manager =
  stores :: "(ustring \<times> catalog_item list) list"
  shopping_list :: "cart_entry list"
  budget :: real
  store_budgets :: "(ustring \<times> real) list"
  email_address :: ustring
  archived_lists :: "archive list"
  save_pending :: bool

definition max_archives :: nat where
  "max_archives = 6"

text \<open>The messages the archive methods return next to their success flag.\<close>

datatype message =
    NoItemsToArchive "ustring option"
  | Archived nat "ustring option" number
  | InvalidArchiveIndex
  | Restored nat ustring
  | DeletedArchive "ustring option" ustring
  | NoArchivesSelected
  | DeletedArchives nat
  | NoValidArchives

section \<open>Helpers for Python idioms\<close>

text \<open>
  \<^verbatim>\<open>for x in xs: if P(x): <mutate x>; return True\<close> followed by a fall-through: the
  first element satisfying \<open>P\<close> is changed; \<open>None\<close> when the loop ends without a match.
\<close>

fun update_first :: "('a \<Rightarrow> bool) \<Rightarrow> ('a \<Rightarrow> 'a) \<Rightarrow> 'a list \<Rightarrow> 'a list option" where
  "update_first P f [] = None"
| "update_first P f (x # xs) =
     (if P x then Some (f x # xs)
      else (case update_first P f xs of None \<Rightarrow> None | Some ys \<Rightarrow> Some (x # ys)))"

text \<open>The same loop nested in \<^verbatim>\<open>for store_name, items in self.stores.items()\<close>.\<close>

fun update_first_in_stores ::
  "('a \<Rightarrow> bool) \<Rightarrow> ('a \<Rightarrow> 'a) \<Rightarrow> ('k \<times> 'a list) list \<Rightarrow> ('k \<times> 'a list) list option" where
  "update_first_in_stores P f [] = None"
| "update_first_in_stores P f ((k, xs) # rest) =
     (case update_first P f xs of
        Some ys \<Rightarrow> Some ((k, ys) # rest)
      | None \<Rightarrow> (case update_first_in_stores P f rest of
                   None \<Rightarrow> None
                 | Some rest' \<Rightarrow> Some ((k, xs) # rest')))"

text \<open>The first item with the given id, in the order the nested loops visit the catalogue.\<close>

definition find_catalog_item :: "(ustring \<times> catalog_item list) list \<Rightarrow> ustring \<Rightarrow> catalog_item option" where
  "find_catalog_item sts i = List.find (\<lambda>item. item_id item = i) (concat (map snd sts))"

text \<open>\<^verbatim>\<open>list.pop(n)\<close> for an index already checked to be in range.\<close>

definition pop_at :: "nat \<Rightarrow> 'a list \<Rightarrow> 'a list" where
  "pop_at n xs = take n xs @ drop (Suc n) xs"

text \<open>\<^verbatim>\<open>item.copy()\<close> followed by \<^verbatim>\<open>list_item['quantity'] = quantity\<close>.\<close>

definition copy_with_quantity :: "catalog_item \<Rightarrow> int \<Rightarrow> cart_entry" where
  "copy_with_quantity item q = catalog_item.extend item (cart_entry.fields q)"

text \<open>\<^verbatim>\<open>sum(item['price'] * item['quantity'] for item in xs)\<close>.\<close>

definition cost_of :: "float_lib \<Rightarrow> cart_entry list \<Rightarrow> number" where
  "cost_of F xs =
     py_sum F (map (\<lambda>item. py_mul F (PyFloat (price item)) (PyInt (quantity item))) xs)"

section \<open>Persistence flags\<close>

text \<open>
  \<^verbatim>\<open>_schedule_save\<close> arms the debounce timer and sets \<^verbatim>\<open>_save_pending\<close>;
  \<^verbatim>\<open>force_save\<close> sets the flag, writes (\<^verbatim>\<open>_do_save\<close>) and clears it. The write itself
  leaves the in-memory state alone.
\<close>

definition schedule_save :: "manager \<Rightarrow> manager" where
  "schedule_save s = s\<lparr>save_pending := True\<rparr>"

definition force_save :: "manager \<Rightarrow> manager" where
  "force_save s = s\<lparr>save_pending := False\<rparr>"

section \<open>Cart operations of \<^verbatim>\<open>GroceryManager\<close>\<close>

definition add_to_shopping_list :: "manager \<Rightarrow> ustring \<Rightarrow> int \<Rightarrow> bool \<times> manager" where
  "add_to_shopping_list s i q =
     (case find_catalog_item (stores s) i of
        None \<Rightarrow> (False, s)
      | Some item \<Rightarrow>
          (case update_first (\<lambda>e. item_id e = i) (\<lambda>e. e\<lparr>quantity := quantity e + q\<rparr>)
                  (shopping_list s) of
             Some l \<Rightarrow> (True, schedule_save (s\<lparr>shopping_list := l\<rparr>))
           | None \<Rightarrow>
               (True, schedule_save
                  (s\<lparr>shopping_list := shopping_list s @ [copy_with_quantity item q]\<rparr>))))"

definition remove_from_shopping_list :: "manager \<Rightarrow> ustring \<Rightarrow> manager" where
  "remove_from_shopping_list s i =
     schedule_save (s\<lparr>shopping_list := filter (\<lambda>item. item_id item \<noteq> i) (shopping_list s)\<rparr>)"

definition update_quantity :: "manager \<Rightarrow> ustring \<Rightarrow> int \<Rightarrow> bool \<times> manager" where
  "update_quantity s i q =
     (case update_first (\<lambda>item. item_id item = i) (\<lambda>item. item\<lparr>quantity := q\<rparr>)
             (shopping_list s) of
        Some l \<Rightarrow> (True, schedule_save (s\<lparr>shopping_list := l\<rparr>))
      | None \<Rightarrow> (False, s))"

definition get_total_cost :: "float_lib \<Rightarrow> manager \<Rightarrow> number" where
  "get_total_cost F s = py_round F (cost_of F (shopping_list s)) 2"

definition set_budget :: "manager \<Rightarrow> real \<Rightarrow> manager" where
  "set_budget s amount = schedule_save (s\<lparr>budget := amount\<rparr>)"

definition clear_shopping_list :: "manager \<Rightarrow> manager" where
  "clear_shopping_list s = schedule_save (s\<lparr>shopping_list := []\<rparr>)"

text \<open>
  \<^verbatim>\<open>update_catalog_item\<close> writes the arguments that are not \<^verbatim>\<open>None\<close> into the
  item. The same four assignments are applied to a catalogue item and to cart entries.
\<close>

definition patch_item ::
  "ustring option \<Rightarrow> ustring option \<Rightarrow> real option \<Rightarrow> ustring option \<Rightarrow>
   'a catalog_item_scheme \<Rightarrow> 'a catalog_item_scheme" where
  "patch_item n c p u item =
     item\<lparr>name := (case n of None \<Rightarrow> name item | Some v \<Rightarrow> v),
          category := (case c of None \<Rightarrow> category item | Some v \<Rightarrow> v),
          price := (case p of None \<Rightarrow> price item | Some v \<Rightarrow> v),
          unit := (case u of None \<Rightarrow> unit item | Some v \<Rightarrow> v)\<rparr>"

definition update_catalog_item ::
  "manager \<Rightarrow> ustring \<Rightarrow> ustring option \<Rightarrow> ustring option \<Rightarrow> real option \<Rightarrow> ustring option \<Rightarrow>
   bool \<times> manager" where
  "update_catalog_item s i n c p u =
     (case update_first_in_stores (\<lambda>item. item_id item = i) (patch_item n c p u) (stores s) of
        None \<Rightarrow> (False, s)
      | Some sts \<Rightarrow>
          (True, schedule_save
             (s\<lparr>stores := sts,
                shopping_list :=
                  map (\<lambda>list_item. if item_id list_item = i then patch_item n c p u list_item
                                   else list_item)
                    (shopping_list s)\<rparr>)))"

section \<open>Budget status\<close>

datatype budget_level = OnTrack | Approaching | OverBudget number

datatype color = Green | Yellow | Red

record budget_status =
  bs_total :: number
  bs_budget :: real
  bs_percentage :: number
  bs_status :: budget_level
  bs_color :: color
  bs_remaining :: number

text \<open>
  \<^verbatim>\<open>percentage = (total / self.budget * 100) if self.budget > 0 else 0\<close>: the division is
  the only place that can raise, and it is written as such.
\<close>

definition budget_percentage :: "float_lib \<Rightarrow> number \<Rightarrow> real \<Rightarrow> py_error + number" where
  "budget_percentage F tot b =
     (if 0 < b
      then (case py_truediv F tot b of Inl e \<Rightarrow> Inl e | Inr r \<Rightarrow> Inr (py_mul F r (PyInt 100)))
      else Inr (PyInt 0))"

definition get_budget_status :: "float_lib \<Rightarrow> manager \<Rightarrow> py_error + budget_status" where
  "get_budget_status F s =
     (let tot = get_total_cost F s
      in case budget_percentage F tot (budget s) of
           Inl e \<Rightarrow> Inl e
         | Inr percentage \<Rightarrow>
             (let (status, col) =
                    (if py_less percentage (PyInt 80) then (OnTrack, Green)
                     else if py_less percentage (PyInt 100) then (Approaching, Yellow)
                     else (OverBudget (py_sub F tot (PyFloat (budget s))), Red))
              in Inr \<lparr>bs_total = tot, bs_budget = budget s,
                      bs_percentage = py_round F percentage 1,
                      bs_status = status, bs_color = col,
                      bs_remaining = py_round F (py_sub F (PyFloat (budget s)) tot) 2\<rparr>))"

text \<open>
  Claim C10 speaks of \<open>total / budget \<times> 100\<close>. With the operators of Python on a float
  budget this is the float below.
\<close>

definition spec_percentage :: "float_lib \<Rightarrow> number \<Rightarrow> real \<Rightarrow> real" where
  "spec_percentage F tot b = fl_mul F (fl_div F (py_float F tot) b) (fl_of_int F 100)"

section \<open>Archive operations of \<^verbatim>\<open>GroceryManager\<close>\<close>

text \<open>
  \<^verbatim>\<open>archive_and_restart\<close>. The two calls of \<^verbatim>\<open>datetime.now\<close> are the arguments
  \<open>now\<close> and \<open>now_label\<close>. The entry is labelled \<^verbatim>\<open>store_name or 'All Stores'\<close>.
\<close>

definition archive_and_restart ::
  "float_lib \<Rightarrow> manager \<Rightarrow> ustring option \<Rightarrow> ustring \<Rightarrow> ustring \<Rightarrow>
   (bool \<times> message) \<times> manager" where
  "archive_and_restart F s store_name now now_label =
     (let store_items =
            (if truthy store_name
             then filter (\<lambda>item. Some (store item) = store_name) (shopping_list s)
             else shopping_list s)
      in if store_items = [] then ((False, NoItemsToArchive store_name), s)
         else
           (let archive_entry =
                  \<lparr>date = now, date_label = now_label,
                   arch_store = (if truthy store_name then store_name
                                 else Some (ascii ''All Stores'')),
                   items = store_items,
                   item_count = length store_items,
                   total_cost = py_round F (cost_of F store_items) 2\<rparr>;
                inserted = archive_entry # archived_lists s;
                rotated = (if max_archives < length inserted then take max_archives inserted
                           else inserted);
                remaining =
                  (if truthy store_name
                   then filter (\<lambda>item. Some (store item) \<noteq> store_name) (shopping_list s)
                   else [])
            in ((True, Archived (item_count archive_entry) store_name (total_cost archive_entry)),
                force_save (s\<lparr>archived_lists := rotated, shopping_list := remaining\<rparr>))))"

definition restore_from_archive :: "manager \<Rightarrow> int \<Rightarrow> (bool \<times> message) \<times> manager" where
  "restore_from_archive s archive_index =
     (if archive_index < 0 \<or> int (length (archived_lists s)) \<le> archive_index
      then ((False, InvalidArchiveIndex), s)
      else
        (let archive = archived_lists s ! nat archive_index;
             store_name = arch_store archive;
             kept =
               (if truthy store_name
                then filter (\<lambda>item. Some (store item) \<noteq> store_name) (shopping_list s)
                else [])
         in ((True, Restored (length (items archive)) (date_label archive)),
             schedule_save (s\<lparr>shopping_list := kept @ items archive\<rparr>))))"

definition get_store_item_count :: "manager \<Rightarrow> ustring \<Rightarrow> nat" where
  "get_store_item_count s store_name =
     length (filter (\<lambda>item. store item = store_name) (shopping_list s))"

definition delete_archive :: "manager \<Rightarrow> int \<Rightarrow> (bool \<times> message) \<times> manager" where
  "delete_archive s archive_index =
     (if archive_index < 0 \<or> int (length (archived_lists s)) \<le> archive_index
      then ((False, InvalidArchiveIndex), s)
      else
        (let archive = archived_lists s ! nat archive_index
         in ((True, DeletedArchive (arch_store archive) (date_label archive)),
             force_save (s\<lparr>archived_lists := pop_at (nat archive_index) (archived_lists s)\<rparr>))))"

text \<open>
  The loop of \<^verbatim>\<open>delete_multiple_archives\<close> over the sorted indices: the ring and
  \<^verbatim>\<open>deleted_count\<close> are threaded through.
\<close>

fun delete_loop :: "int list \<Rightarrow> 'a list \<Rightarrow> nat \<Rightarrow> 'a list \<times> nat" where
  "delete_loop [] xs deleted_count = (xs, deleted_count)"
| "delete_loop (index # rest) xs deleted_count =
     (if 0 \<le> index \<and> index < int (length xs)
      then delete_loop rest (pop_at (nat index) xs) (deleted_count + 1)
      else delete_loop rest xs deleted_count)"

definition delete_multiple_archives :: "manager \<Rightarrow> int list \<Rightarrow> (bool \<times> message) \<times> manager" where
  "delete_multiple_archives s indices =
     (if indices = [] then ((False, NoArchivesSelected), s)
      else
        (let sorted_indices = rev (sort indices);
             (ring, deleted_count) = delete_loop sorted_indices (archived_lists s) 0
         in if 0 < deleted_count
            then ((True, DeletedArchives deleted_count), force_save (s\<lparr>archived_lists := ring\<rparr>))
            else ((False, NoValidArchives), s\<lparr>archived_lists := ring\<rparr>)))"

section \<open>The manager as a state machine\<close>

text \<open>
  A manager that found no saved document starts from \<^verbatim>\<open>__init__\<close> and
  \<^verbatim>\<open>_initialize_sample_data\<close>: an empty cart, an empty archive ring and the seed
  catalogue (a parameter here, with the e-mail setting). Its state then changes only
  through the mutating public methods of \<^verbatim>\<open>GroceryManager\<close>.
\<close>

definition initial_manager :: "(ustring \<times> catalog_item list) list \<Rightarrow> ustring \<Rightarrow> manager" where
  "initial_manager catalogue email =
     \<lparr>stores = catalogue, shopping_list = [], budget = 750,
      store_budgets = [(ascii ''Trader Joe's'', 200), (ascii ''Safeway'', 150),
                       (ascii ''Costco'', 300), (ascii ''Indian Groceries'', 100)],
      email_address = email, archived_lists = [], save_pending = False\<rparr>"

datatype manager_op =
    AddToShoppingList ustring int
  | RemoveFromShoppingList ustring
  | UpdateQuantity ustring int
  | SetBudget real
  | ClearShoppingList
  | UpdateCatalogItem ustring "ustring option" "ustring option" "real option" "ustring option"
  | ArchiveAndRestart "ustring option" ustring ustring
  | RestoreFromArchive int
  | DeleteArchive int
  | DeleteMultipleArchives "int list"

fun apply_op :: "float_lib \<Rightarrow> manager \<Rightarrow> manager_op \<Rightarrow> manager" where
  "apply_op F s (AddToShoppingList i q) = snd (add_to_shopping_list s i q)"
| "apply_op F s (RemoveFromShoppingList i) = remove_from_shopping_list s i"
| "apply_op F s (UpdateQuantity i q) = snd (update_quantity s i q)"
| "apply_op F s (SetBudget amount) = set_budget s amount"
| "apply_op F s ClearShoppingList = clear_shopping_list s"
| "apply_op F s (UpdateCatalogItem i n c p u) = snd (update_catalog_item s i n c p u)"
| "apply_op F s (ArchiveAndRestart store_name now now_label) =
     snd (archive_and_restart F s store_name now now_label)"
| "apply_op F s (RestoreFromArchive i) = snd (restore_from_archive s i)"
| "apply_op F s (DeleteArchive i) = snd (delete_archive s i)"
| "apply_op F s (DeleteMultipleArchives indices) = snd (delete_multiple_archives s indices)"

definition run_ops :: "float_lib \<Rightarrow> manager \<Rightarrow> manager_op list \<Rightarrow> manager" where
  "run_ops F s ops = foldl (apply_op F) s ops"

inductive reachable_from :: "float_lib \<Rightarrow> manager \<Rightarrow> manager \<Rightarrow> bool"
  for F :: float_lib and s0 :: manager where
  start: "reachable_from F s0 s0"
| step: "reachable_from F s0 s \<Longrightarrow> reachable_from F s0 (apply_op F s op)"

section \<open>The functions of \<^verbatim>\<open>app.py\<close>\<close>

text \<open>
  \<^verbatim>\<open>app.py\<close> works on the same manager object. It uses the text functions of the Python
  standard library (\<^verbatim>\<open>str.strip\<close>, \<^verbatim>\<open>str.lower\<close>, \<^verbatim>\<open>unicodedata.normalize('NFKD', _)\<close>,
  \<^verbatim>\<open>unicodedata.combining\<close>, \<^verbatim>\<open>int\<close>, the formatting of an integer); they rest on the
  Unicode character database and are parameters of the model.
\<close>

record text_lib =
  str_strip :: "ustring \<Rightarrow> ustring"
  str_lower :: "ustring \<Rightarrow> ustring"
  normalize_nfkd :: "ustring \<Rightarrow> ustring"
  combining :: "nat \<Rightarrow> nat"
  parse_int :: "ustring \<Rightarrow> int option"
  format_int :: "int \<Rightarrow> ustring"

definition normalize_text :: "text_lib \<Rightarrow> ustring \<Rightarrow> ustring" where
  "normalize_text L text =
     (if text = [] then text
      else (let normalized = normalize_nfkd L text;
                ascii_text = filter (\<lambda>c. combining L c = 0) normalized
            in str_strip L ascii_text))"

datatype cart_message =
    ItemNotFound
  | UpdatedQuantity ustring int
  | AddedToCart int ustring
  | EnterItemId
  | QuantityAtLeastOne
  | UpdatedFromTo ustring int int
  | NotInCart ustring

definition add_to_cart :: "manager \<Rightarrow> ustring \<Rightarrow> int \<Rightarrow> cart_message \<times> manager" where
  "add_to_cart s i q =
     (case find_catalog_item (stores s) i of
        None \<Rightarrow> (ItemNotFound, s)
      | Some item \<Rightarrow>
          (case List.find (\<lambda>list_item. item_id list_item = i) (shopping_list s) of
             Some list_item \<Rightarrow>
               (UpdatedQuantity (name item) (quantity list_item + q),
                s\<lparr>shopping_list :=
                    the (update_first (\<lambda>e. item_id e = i) (\<lambda>e. e\<lparr>quantity := quantity e + q\<rparr>)
                           (shopping_list s))\<rparr>)
           | None \<Rightarrow>
               (AddedToCart q (name item),
                s\<lparr>shopping_list := shopping_list s @ [copy_with_quantity item q]\<rparr>)))"

definition update_item_quantity ::
  "text_lib \<Rightarrow> manager \<Rightarrow> ustring \<Rightarrow> int \<Rightarrow> cart_message \<times> manager" where
  "update_item_quantity L s i new_quantity =
     (if i = [] \<or> str_strip L i = [] then (EnterItemId, s)
      else if new_quantity < 1 then (QuantityAtLeastOne, s)
      else
        (case List.find (\<lambda>item. item_id item = str_strip L i) (shopping_list s) of
           Some item \<Rightarrow>
             (UpdatedFromTo (name item) (quantity item) new_quantity,
              s\<lparr>shopping_list :=
                  the (update_first (\<lambda>e. item_id e = str_strip L i)
                         (\<lambda>e. e\<lparr>quantity := new_quantity\<rparr>) (shopping_list s))\<rparr>)
         | None \<Rightarrow> (NotInCart i, s)))"

datatype budget_warning = OverBudgetWarning | ApproachingLimitWarning | OnTrackWarning

text \<open>
  \<^verbatim>\<open>get_budget_status\<close> of \<^verbatim>\<open>app.py\<close>: the status text shows budget, spent and
  remaining; the third component is \<^verbatim>\<open>total / budget if budget > 0 else 0\<close>.
\<close>

definition app_get_budget_status ::
  "float_lib \<Rightarrow> manager \<Rightarrow>
   py_error + ((real \<times> number \<times> number) \<times> budget_warning \<times> number)" where
  "app_get_budget_status F s =
     (let tot = cost_of F (shopping_list s);
          b = budget s;
          remaining = py_sub F (PyFloat b) tot;
          warning = (if py_less remaining (PyInt 0) then OverBudgetWarning
                     else if py_less remaining (py_mul F (PyFloat b) (PyFloat float_tenth))
                     then ApproachingLimitWarning
                     else OnTrackWarning)
      in case (if 0 < b then py_truediv F tot b else Inr (PyInt 0)) of
           Inl e \<Rightarrow> Inl e
         | Inr ratio \<Rightarrow> Inr ((b, tot, remaining), warning, ratio))"

text \<open>\<^verbatim>\<open>s.split(sep)\<close> for a one-character separator, and \<^verbatim>\<open>s.startswith(p)\<close>.\<close>

fun split_on :: "nat \<Rightarrow> ustring \<Rightarrow> ustring list" where
  "split_on sep [] = [[]]"
| "split_on sep (c # cs) =
     (if c = sep then [] # split_on sep cs
      else (case split_on sep cs of [] \<Rightarrow> [[c]] | w # ws \<Rightarrow> (c # w) # ws))"

definition startswith :: "ustring \<Rightarrow> ustring \<Rightarrow> bool" where
  "startswith t p = (take (length p) t = p)"

text \<open>
  The id loop of \<^verbatim>\<open>add_catalog_item\<close>: the largest number after the first \<^verbatim>\<open>-\<close>
  among the ids that start with the prefix; an id that does not parse is skipped
  (\<^verbatim>\<open>except: pass\<close>).
\<close>

definition max_id_of :: "text_lib \<Rightarrow> ustring \<Rightarrow> catalog_item list \<Rightarrow> int" where
  "max_id_of L prefix store_items =
     fold (\<lambda>item max_id.
             if startswith (item_id item) prefix
             then (case split_on 45 (item_id item) of
                     _ # num # _ \<Rightarrow>
                       (case parse_int L num of Some n \<Rightarrow> max max_id n | None \<Rightarrow> max_id)
                   | _ \<Rightarrow> max_id)
             else max_id)
       store_items 0"

text \<open>\<^verbatim>\<open>grocery_manager.stores[store_name].append(new_item)\<close>.\<close>

fun append_to_store ::
  "ustring \<Rightarrow> catalog_item \<Rightarrow> (ustring \<times> catalog_item list) list \<Rightarrow>
   (ustring \<times> catalog_item list) list" where
  "append_to_store k item [] = []"
| "append_to_store k item ((k', xs) # rest) =
     (if k' = k then (k', xs @ [item]) # rest else (k', xs) # append_to_store k item rest)"

datatype catalog_message =
    FillAllFields
  | AlreadyExists ustring ustring
  | AddedToCatalog ustring ustring

definition add_catalog_item ::
  "text_lib \<Rightarrow> manager \<Rightarrow> ustring \<Rightarrow> ustring \<Rightarrow> ustring \<Rightarrow> real \<Rightarrow> ustring \<Rightarrow>
   py_error + (catalog_message \<times> manager)" where
  "add_catalog_item L s store_name nm cat pr un =
     (if nm = [] \<or> cat = [] \<or> pr \<le> 0 then Inr (FillAllFields, s)
      else
        (let name_normalized = normalize_text L (str_strip L nm);
             category_normalized = normalize_text L (str_strip L cat);
             store_items = (case map_of (stores s) store_name of None \<Rightarrow> [] | Some xs \<Rightarrow> xs);
             name_trimmed = str_lower L name_normalized
         in if list_ex (\<lambda>item. str_lower L (name item) = name_trimmed) store_items
            then Inr (AlreadyExists name_normalized store_name, s)
            else
              (let prefix = filter (\<lambda>c. c \<noteq> 32) (str_lower L (take 2 store_name));
                   max_id = max_id_of L prefix store_items;
                   new_id = prefix @ [45] @ format_int L (max_id + 1);
                   new_item = \<lparr>item_id = new_id, name = name_normalized,
                               category = category_normalized, store = store_name,
                               price = pr, unit = str_strip L un,
                               default_quantity = None\<rparr>
               in case map_of (stores s) store_name of
                    None \<Rightarrow> Inl KeyError
                  | Some _ \<Rightarrow>
                      Inr (AddedToCatalog name_normalized store_name,
                           schedule_save
                             (s\<lparr>stores := append_to_store store_name new_item (stores s)\<rparr>)))))"

section \<open>A text library for concrete inputs\<close>

text \<open>
  To run the functions of \<^verbatim>\<open>app.py\<close> on concrete text, \<open>sample_lib\<close> implements the
  library on a fragment of Unicode: Python's white space, the ASCII letters and digits,
  the letter U+00E9 (which NFKD decomposes into \<^verbatim>\<open>e\<close> and the combining acute accent
  U+0301, of combining class 230) and the mathematical bold letters U+1D400 to U+1D433
  (which NFKD maps to the ASCII letters).
\<close>

definition is_space :: "nat \<Rightarrow> bool" where
  "is_space c =
     ((9 \<le> c \<and> c \<le> 13) \<or> (28 \<le> c \<and> c \<le> 32) \<or> c = 133 \<or> c = 160 \<or> c = 5760
      \<or> (8192 \<le> c \<and> c \<le> 8202) \<or> c = 8232 \<or> c = 8233 \<or> c = 8239 \<or> c = 8287
      \<or> c = 12288)"

definition sample_strip :: "ustring \<Rightarrow> ustring" where
  "sample_strip t = rev (dropWhile is_space (rev (dropWhile is_space t)))"

definition sample_lower :: "ustring \<Rightarrow> ustring" where
  "sample_lower t = map (\<lambda>c. if 65 \<le> c \<and> c \<le> 90 then c + 32 else c) t"

definition sample_nfkd :: "ustring \<Rightarrow> ustring" where
  "sample_nfkd t =
     concat (map (\<lambda>c. if c = 233 then [101, 769]
                       else if 119808 \<le> c \<and> c \<le> 119833 then [c - 119808 + 65]
                       else if 119834 \<le> c \<and> c \<le> 119859 then [c - 119834 + 97]
                       else [c]) t)"

definition sample_combining :: "nat \<Rightarrow> nat" where
  "sample_combining c = (if c = 769 then 230 else 0)"

definition sample_parse_int :: "ustring \<Rightarrow> int option" where
  "sample_parse_int t =
     (if t \<noteq> [] \<and> list_all (\<lambda>c. 48 \<le> c \<and> c \<le> 57) t
      then Some (foldl (\<lambda>n c. 10 * n + int (c - 48)) 0 t)
      else None)"

fun digits_of :: "nat \<Rightarrow> nat \<Rightarrow> ustring" where
  "digits_of 0 n = []"
| "digits_of (Suc fuel) n =
     (if n < 10 then [48 + n] else digits_of fuel (n div 10) @ [48 + n mod 10])"

definition sample_format_int :: "int \<Rightarrow> ustring" where
  "sample_format_int n =
     (if n < 0 then 45 # digits_of (Suc (nat (- n))) (nat (- n))
      else digits_of (Suc (nat n)) (nat n))"

definition sample_lib :: text_lib where
  "sample_lib =
     \<lparr>str_strip = sample_strip, str_lower = sample_lower, normalize_nfkd = sample_nfkd,
      combining = sample_combining, parse_int = sample_parse_int,
      format_int = sample_format_int\<rparr>"

section \<open>A float library for concrete inputs\<close>

text \<open>
  To run the arithmetic on concrete numbers, \<open>double_lib\<close> implements the float operations
  as IEEE 754 binary64 does in its default rounding mode: the exact result is rounded to the
  nearest number with a significand of 53 bits, a tie going to the even significand.

  \<open>binade x\<close> is the exponent \<open>e\<close> with \<open>2\<^sup>e \<le> \<bar>x\<bar> < 2\<^sup>e\<^sup>+\<^sup>1\<close>, searched upwards from
  0 for at most 1024 steps and downwards for at most 1022 steps: below \<open>2\<^sup>-\<^sup>1\<^sup>0\<^sup>2\<^sup>2\<close> the
  numbers keep the spacing \<open>2\<^sup>-\<^sup>1\<^sup>0\<^sup>7\<^sup>4\<close>. A result beyond the largest binary64 is an
  infinity in Python and is not represented here.
\<close>

fun binade_up :: "nat \<Rightarrow> real \<Rightarrow> int" where
  "binade_up 0 x = 0"
| "binade_up (Suc k) x = (if 2 \<le> x then binade_up k (x / 2) + 1 else 0)"

fun binade_down :: "nat \<Rightarrow> real \<Rightarrow> int" where
  "binade_down 0 x = 0"
| "binade_down (Suc k) x = (if x < 1 then binade_down k (x * 2) - 1 else 0)"

definition binade :: "real \<Rightarrow> int" where
  "binade x = (if 1 \<le> \<bar>x\<bar> then binade_up 1024 \<bar>x\<bar> else binade_down 1022 \<bar>x\<bar>)"

definition two_power :: "int \<Rightarrow> real" where
  "two_power e = (if 0 \<le> e then 2 ^ nat e else 1 / 2 ^ nat (- e))"

text \<open>The nearest integer, a tie going to the even one.\<close>

definition round_half_even :: "real \<Rightarrow> int" where
  "round_half_even y =
     (let f = \<lfloor>y\<rfloor>; d = y - of_int f
      in if d < 1 / 2 then f else if 1 / 2 < d then f + 1
         else if even f then f else f + 1)"

definition to_binary64 :: "real \<Rightarrow> real" where
  "to_binary64 x =
     (let q = two_power (binade x - 52) in of_int (round_half_even (x / q)) * q)"

text \<open>
  \<^verbatim>\<open>round(x, n)\<close> on a float rounds the exact value of \<open>x\<close> to \<open>n\<close> decimals, a tie going
  to the even neighbour, and returns the float nearest to that decimal.
\<close>

definition decimal_round :: "real \<Rightarrow> nat \<Rightarrow> real" where
  "decimal_round x n = of_int (round_half_even (x * 10 ^ n)) / 10 ^ n"

definition double_lib :: float_lib where
  "double_lib =
     \<lparr>fl_of_int = (\<lambda>i. to_binary64 (of_int i)),
      fl_add = (\<lambda>x y. to_binary64 (x + y)),
      fl_sub = (\<lambda>x y. to_binary64 (x - y)),
      fl_mul = (\<lambda>x y. to_binary64 (x * y)),
      fl_div = (\<lambda>x y. to_binary64 (x / y)),
      fl_round = (\<lambda>x n. to_binary64 (decimal_round x n))\<rparr>"

section \<open>Concrete states\<close>

text \<open>
  Two items of the seed catalogue (\<^verbatim>\<open>_initialize_sample_data\<close>) and a fresh manager
  over them, used where a statement is evaluated at a concrete input. A price written
  \<^verbatim>\<open>19.99\<close> in the source is the binary64 nearest to that decimal.
\<close>

definition costco_towels :: catalog_item where
  "costco_towels =
     \<lparr>item_id = ascii ''co-1'', name = ascii ''Kirkland Paper Towels 12-pack'',
      category = ascii ''Bulk Household'', store = ascii ''Costco'', price = to_binary64 (1999 / 100),
      unit = ascii ''pack'', default_quantity = Some 1\<rparr>"

definition safeway_chicken :: catalog_item where
  "safeway_chicken =
     \<lparr>item_id = ascii ''sw-1'', name = ascii ''Chicken Breast'', category = ascii ''Meat'',
      store = ascii ''Safeway'', price = to_binary64 (499 / 100), unit = ascii ''lb'',
      default_quantity = Some 2\<rparr>"

definition seed_excerpt :: "(ustring \<times> catalog_item list) list" where
  "seed_excerpt = [(ascii ''Safeway'', [safeway_chicken]), (ascii ''Costco'', [costco_towels])]"

definition demo_manager :: manager where
  "demo_manager = initial_manager seed_excerpt (ascii ''user@example.com'')"

text \<open>The same manager with two Costco packs and one Safeway item in the cart.\<close>

definition demo_cart :: manager where
  "demo_cart =
     run_ops double_lib demo_manager
       [AddToShoppingList (ascii ''co-1'') 2, AddToShoppingList (ascii ''sw-1'') 1]"

text \<open>
  A manager whose catalogue holds one Costco item of price \<open>p\<close>, with one unit of it in
  the cart and the budget set to \<open>b\<close>.
\<close>

definition one_item_cart :: "real \<Rightarrow> real \<Rightarrow> manager" where
  "one_item_cart p b =
     run_ops double_lib
       (initial_manager [(ascii ''Costco'', [costco_towels\<lparr>price := p\<rparr>])]
          (ascii ''user@example.com''))
       [AddToShoppingList (ascii ''co-1'') 1, SetBudget b]"

text \<open>
  A manager whose ring is full: six trips to Costco archived one after the other (the
  dates are \<open>[1]\<close> to \<open>[6]\<close>), and one pack in the cart again.
\<close>

definition demo_full_ring :: manager where
  "demo_full_ring =
     run_ops double_lib demo_manager
       [AddToShoppingList (ascii ''co-1'') 1, ArchiveAndRestart (Some (ascii ''Costco'')) [1] [],
        AddToShoppingList (ascii ''co-1'') 1, ArchiveAndRestart (Some (ascii ''Costco'')) [2] [],
        AddToShoppingList (ascii ''co-1'') 1, ArchiveAndRestart (Some (ascii ''Costco'')) [3] [],
        AddToShoppingList (ascii ''co-1'') 1, ArchiveAndRestart (Some (ascii ''Costco'')) [4] [],
        AddToShoppingList (ascii ''co-1'') 1, ArchiveAndRestart (Some (ascii ''Costco'')) [5] [],
        AddToShoppingList (ascii ''co-1'') 1, ArchiveAndRestart (Some (ascii ''Costco'')) [6] [],
        AddToShoppingList (ascii ''co-1'') 1]"

text \<open>A manager with three archived Costco trips, dated \<open>[1]\<close>, \<open>[2]\<close> and \<open>[3]\<close>.\<close>

definition demo_three_trips :: manager where
  "demo_three_trips =
     run_ops double_lib demo_manager
       [AddToShoppingList (ascii ''co-1'') 1, ArchiveAndRestart (Some (ascii ''Costco'')) [1] [],
        AddToShoppingList (ascii ''co-1'') 1, ArchiveAndRestart (Some (ascii ''Costco'')) [2] [],
        AddToShoppingList (ascii ''co-1'') 1, ArchiveAndRestart (Some (ascii ''Costco'')) [3] []]"

text \<open>
  A fresh manager after one Costco pack was put in the cart and the whole cart was archived
  with \<^verbatim>\<open>archive_and_restart(None)\<close>.
\<close>

definition demo_all_stores_archived :: manager where
  "demo_all_stores_archived =
     run_ops double_lib demo_manager
       [AddToShoppingList (ascii ''co-1'') 1, ArchiveAndRestart None [1] []]"

text \<open>
  A manager whose Costco catalogue holds one item named \<^verbatim>\<open>Cafe\<close> in plain ASCII, and two
  ways of writing the same word: with U+00E9, and in mathematical bold letters.
\<close>

definition costco_cafe :: catalog_item where
  "costco_cafe =
     \<lparr>item_id = ascii ''co-1'', name = ascii ''Cafe'', category = ascii ''Bulk Pantry'',
      store = ascii ''Costco'', price = to_binary64 (1299 / 100), unit = ascii ''each'',
      default_quantity = None\<rparr>"

definition cafe_manager :: manager where
  "cafe_manager = initial_manager [(ascii ''Costco'', [costco_cafe])] (ascii ''user@example.com'')"

definition cafe_accented :: ustring where
  "cafe_accented = [67, 97, 102, 233]"

definition cafe_bold :: ustring where
  "cafe_bold = [119810, 119834, 119839, 119838]"

section \<open>Facts about the helpers\<close>

lemmas demo_defs = demo_cart_def run_ops_def demo_manager_def seed_excerpt_def
  safeway_chicken_def costco_towels_def initial_manager_def ascii_def

lemmas op_defs = add_to_shopping_list_def find_catalog_item_def schedule_save_def
  force_save_def copy_with_quantity_def catalog_item.defs cart_entry.defs

lemma update_first_None: "(update_first P f xs = None) = (\<forall>x\<in>set xs. \<not> P x)"
  by (induction xs) (auto split: option.splits)

lemma update_first_filter_single:
  "filter P xs = [e] \<Longrightarrow> P (f e) \<Longrightarrow>
   \<exists>ys. update_first P f xs = Some ys \<and> filter P ys = [f e]
        \<and> filter (\<lambda>x. \<not> P x) ys = filter (\<lambda>x. \<not> P x) xs"
proof (induction xs)
  case Nil
  then show ?case by simp
next
  case (Cons x xs)
  show ?case
  proof (cases "P x")
    case True
    with Cons.prems have "x = e" "filter P xs = []" by auto
    with True Cons.prems show ?thesis by simp
  next
    case False
    with Cons.prems have "filter P xs = [e]" by simp
    from Cons.IH[OF this Cons.prems(2)] obtain ys where
      "update_first P f xs = Some ys" "filter P ys = [f e]"
      "filter (\<lambda>x. \<not> P x) ys = filter (\<lambda>x. \<not> P x) xs" by blast
    with False show ?thesis by simp
  qed
qed

lemma find_Some_ex: "(\<exists>x. List.find P xs = Some x) = (\<exists>x\<in>set xs. P x)"
  by (induction xs) auto

lemma find_catalog_item_Some:
  "(\<exists>item. find_catalog_item sts i = Some item) =
   (\<exists>item\<in>set (concat (map snd sts)). item_id item = i)"
  unfolding find_catalog_item_def by (rule find_Some_ex)

lemma find_catalog_item_id: "find_catalog_item sts i = Some item \<Longrightarrow> item_id item = i"
  unfolding find_catalog_item_def by (auto simp: find_Some_iff)

lemma item_id_copy [simp]: "item_id (copy_with_quantity item q) = item_id item"
  by (simp add: copy_with_quantity_def catalog_item.defs cart_entry.defs)

lemma quantity_copy [simp]: "quantity (copy_with_quantity item q) = q"
  by (simp add: copy_with_quantity_def catalog_item.defs cart_entry.defs)

section \<open>Adding to the cart\<close>

text \<open>The first call for an id that is not in the cart appends a copy of the item.\<close>

lemma add_first:
  assumes "find_catalog_item (stores s) i = Some item"
    and "\<forall>e\<in>set (shopping_list s). item_id e \<noteq> i"
  shows "add_to_shopping_list s i q =
     (True, schedule_save (s\<lparr>shopping_list := shopping_list s @ [copy_with_quantity item q]\<rparr>))"
proof -
  have "update_first (\<lambda>e. item_id e = i) (\<lambda>e. e\<lparr>quantity := quantity e + q\<rparr>)
          (shopping_list s) = None"
    using assms(2) by (simp add: update_first_None)
  then show ?thesis using assms(1) by (simp add: add_to_shopping_list_def)
qed

text \<open>A call for an id with one entry adds to that entry and touches nothing else.\<close>

lemma add_again:
  assumes "find_catalog_item (stores s) i = Some item"
    and "filter (\<lambda>e. item_id e = i) (shopping_list s) = [e]"
  shows "\<exists>s'. add_to_shopping_list s i q = (True, s') \<and> stores s' = stores s
      \<and> filter (\<lambda>e. item_id e = i) (shopping_list s') = [e\<lparr>quantity := quantity e + q\<rparr>]
      \<and> filter (\<lambda>e. item_id e \<noteq> i) (shopping_list s') =
        filter (\<lambda>e. item_id e \<noteq> i) (shopping_list s)"
proof -
  have "e \<in> set (filter (\<lambda>e. item_id e = i) (shopping_list s))" using assms(2) by simp
  then have ei: "item_id e = i" by simp
  obtain ys where ys:
    "update_first (\<lambda>e. item_id e = i) (\<lambda>e. e\<lparr>quantity := quantity e + q\<rparr>) (shopping_list s)
       = Some ys"
    "filter (\<lambda>e. item_id e = i) ys = [e\<lparr>quantity := quantity e + q\<rparr>]"
    "filter (\<lambda>x. \<not> item_id x = i) ys = filter (\<lambda>x. \<not> item_id x = i) (shopping_list s)"
    using update_first_filter_single[OF assms(2), of "\<lambda>e. e\<lparr>quantity := quantity e + q\<rparr>"] ei
    by auto
  then show ?thesis using assms(1) by (simp add: add_to_shopping_list_def schedule_save_def)
qed

lemma add_many:
  assumes "find_catalog_item (stores s) i = Some item"
    and "filter (\<lambda>e. item_id e = i) (shopping_list s) = [e]"
  shows "\<exists>e'. filter (\<lambda>e. item_id e = i)
                (shopping_list (foldl (\<lambda>s q. snd (add_to_shopping_list s i q)) s qs)) = [e']
       \<and> quantity e' = quantity e + sum_list qs
       \<and> filter (\<lambda>e. item_id e \<noteq> i)
           (shopping_list (foldl (\<lambda>s q. snd (add_to_shopping_list s i q)) s qs))
          = filter (\<lambda>e. item_id e \<noteq> i) (shopping_list s)"
  using assms
proof (induction qs arbitrary: s e)
  case Nil
  then show ?case by simp
next
  case (Cons q qs)
  from add_again[OF Cons.prems, of q] obtain s' where s':
    "add_to_shopping_list s i q = (True, s')" "stores s' = stores s"
    "filter (\<lambda>e. item_id e = i) (shopping_list s') = [e\<lparr>quantity := quantity e + q\<rparr>]"
    "filter (\<lambda>e. item_id e \<noteq> i) (shopping_list s') =
     filter (\<lambda>e. item_id e \<noteq> i) (shopping_list s)"
    by blast
  have "find_catalog_item (stores s') i = Some item" using s'(2) Cons.prems(1) by simp
  from Cons.IH[OF this s'(3)] s'(1,4) show ?case by (auto simp: algebra_simps)
qed

text \<open>
  Claim C4. Take an id \<open>i\<close> that some store's catalogue holds and a cart with no entry
  for \<open>i\<close>. After the calls \<^verbatim>\<open>add_to_shopping_list(i, q)\<close> for \<open>q\<close> running through a
  non-empty list \<open>qs\<close> of positive quantities, the cart has exactly one entry with id \<open>i\<close>,
  and its quantity is the sum of \<open>qs\<close>.
\<close>

theorem add_same_id_sums_quantities:
  assumes "\<exists>item\<in>set (concat (map snd (stores s))). item_id item = i"
    and "\<forall>e\<in>set (shopping_list s). item_id e \<noteq> i"
    and "qs \<noteq> []"
    and "\<forall>q\<in>set qs. 0 < q"
  shows "\<exists>e. filter (\<lambda>e. item_id e = i)
               (shopping_list (foldl (\<lambda>s q. snd (add_to_shopping_list s i q)) s qs)) = [e]
             \<and> quantity e = sum_list qs"
proof -
  from assms(1) obtain item where item: "find_catalog_item (stores s) i = Some item"
    using find_catalog_item_Some by blast
  from assms(3) obtain q rest where qs: "qs = q # rest" by (cases qs) auto
  let ?s1 = "schedule_save (s\<lparr>shopping_list := shopping_list s @ [copy_with_quantity item q]\<rparr>)"
  have a1: "add_to_shopping_list s i q = (True, ?s1)" using add_first[OF item assms(2)] .
  have "filter (\<lambda>e. item_id e = i) (shopping_list s) = []"
    using assms(2) by (simp add: filter_empty_conv)
  then have f1: "filter (\<lambda>e. item_id e = i) (shopping_list ?s1) = [copy_with_quantity item q]"
    using find_catalog_item_id[OF item] by (simp add: schedule_save_def)
  have st: "find_catalog_item (stores ?s1) i = Some item" using item by (simp add: schedule_save_def)
  from add_many[OF st f1, of rest] show ?thesis using a1 qs by auto
qed

theorem add_same_id_sums_quantities_witness:
  "(\<exists>item\<in>set (concat (map snd (stores demo_manager))). item_id item = ascii ''co-1'')
   \<and> list_all (\<lambda>e. item_id e \<noteq> ascii ''co-1'') (shopping_list demo_manager)
   \<and> [2, 3] \<noteq> ([] :: int list) \<and> list_all (\<lambda>q. 0 < q) [2, 3 :: int]
   \<and> (\<exists>e. filter (\<lambda>e. item_id e = ascii ''co-1'')
              (shopping_list (foldl (\<lambda>s q. snd (add_to_shopping_list s (ascii ''co-1'') q))
                                demo_manager [2, 3])) = [e]
            \<and> quantity e = 5)"
proof -
  have h1: "\<exists>item\<in>set (concat (map snd (stores demo_manager))). item_id item = ascii ''co-1''"
    by (simp add: demo_defs)
  have h2: "\<forall>e\<in>set (shopping_list demo_manager). item_id e \<noteq> ascii ''co-1''"
    by (simp add: demo_defs)
  have h3: "[2, 3] \<noteq> ([] :: int list)" by simp
  have h4: "\<forall>q\<in>set [2, 3 :: int]. 0 < q" by simp
  from add_same_id_sums_quantities[OF h1 h2 h3 h4] h1 h2 show ?thesis
    by (simp add: list_all_iff)
qed

text \<open>
  \<^verbatim>\<open>add_to_cart\<close> of \<^verbatim>\<open>app.py\<close>, which the pages call, changes the cart in the same way
  (it does not schedule a save).
\<close>

lemma add_to_cart_same_cart:
  "shopping_list (snd (add_to_cart s i q)) = shopping_list (snd (add_to_shopping_list s i q))"
proof (cases "find_catalog_item (stores s) i")
  case None
  then show ?thesis by (simp add: add_to_cart_def add_to_shopping_list_def)
next
  case (Some item)
  show ?thesis
  proof (cases "List.find (\<lambda>list_item. item_id list_item = i) (shopping_list s)")
    case None
    then have "\<forall>e\<in>set (shopping_list s). item_id e \<noteq> i" by (simp add: find_None_iff)
    then have "update_first (\<lambda>e. item_id e = i) (\<lambda>e. e\<lparr>quantity := quantity e + q\<rparr>)
                 (shopping_list s) = None"
      by (simp add: update_first_None)
    with None Some show ?thesis
      by (simp add: add_to_cart_def add_to_shopping_list_def schedule_save_def)
  next
    case (Some list_item)
    then have "\<exists>e\<in>set (shopping_list s). item_id e = i" using find_Some_ex by fastforce
    then obtain ys where
      "update_first (\<lambda>e. item_id e = i) (\<lambda>e. e\<lparr>quantity := quantity e + q\<rparr>)
         (shopping_list s) = Some ys"
      using update_first_None[of "\<lambda>e. item_id e = i" _ "shopping_list s"] by fastforce
    with Some \<open>find_catalog_item (stores s) i = Some item\<close> show ?thesis
      by (simp add: add_to_cart_def add_to_shopping_list_def schedule_save_def)
  qed
qed

section \<open>Archiving a store and restoring it\<close>



section \<open>The archive ring\<close>

text \<open>Only the archive methods write the ring, and only \<^verbatim>\<open>archive_and_restart\<close> adds to it.\<close>

lemma ring_add: "archived_lists (snd (add_to_shopping_list s i q)) = archived_lists s"
  by (simp add: add_to_shopping_list_def schedule_save_def split: option.splits)

lemma ring_remove: "archived_lists (remove_from_shopping_list s i) = archived_lists s"
  by (simp add: remove_from_shopping_list_def schedule_save_def)

lemma ring_update_quantity: "archived_lists (snd (update_quantity s i q)) = archived_lists s"
  by (simp add: update_quantity_def schedule_save_def split: option.splits)

lemma ring_set_budget: "archived_lists (set_budget s a) = archived_lists s"
  by (simp add: set_budget_def schedule_save_def)

lemma ring_clear: "archived_lists (clear_shopping_list s) = archived_lists s"
  by (simp add: clear_shopping_list_def schedule_save_def)

lemma ring_update_catalog:
  "archived_lists (snd (update_catalog_item s i n c p u)) = archived_lists s"
  by (simp add: update_catalog_item_def schedule_save_def split: option.splits)

lemma ring_restore: "archived_lists (snd (restore_from_archive s i)) = archived_lists s"
  by (simp add: restore_from_archive_def schedule_save_def Let_def)

lemma ring_archive_le:
  "length (archived_lists s) \<le> max_archives \<Longrightarrow>
   length (archived_lists (snd (archive_and_restart F s sn now lbl))) \<le> max_archives"
  by (simp add: archive_and_restart_def force_save_def Let_def)

lemma length_pop_at: "n < length xs \<Longrightarrow> length (pop_at n xs) = length xs - 1"
  by (simp add: pop_at_def)

lemma ring_delete_le:
  "length (archived_lists (snd (delete_archive s i))) \<le> length (archived_lists s)"
  by (auto simp: delete_archive_def force_save_def Let_def pop_at_def)

lemma delete_loop_length: "length (fst (delete_loop idx xs n)) \<le> length xs"
proof (induction idx arbitrary: xs n)
  case Nil
  then show ?case by simp
next
  case (Cons i idx)
  show ?case
  proof (cases "0 \<le> i \<and> i < int (length xs)")
    case True
    then have "length (pop_at (nat i) xs) \<le> length xs" by (simp add: pop_at_def)
    with Cons.IH[of "pop_at (nat i) xs" "n + 1"] True show ?thesis by simp
  next
    case False
    with Cons.IH[of xs n] show ?thesis by auto
  qed
qed

lemma ring_delete_multiple_le:
  "length (archived_lists (snd (delete_multiple_archives s idx))) \<le> length (archived_lists s)"
  using delete_loop_length[of "rev (sort idx)" "archived_lists s" 0]
  by (auto simp: delete_multiple_archives_def force_save_def Let_def split: prod.splits)

lemma apply_op_ring_bounded:
  "length (archived_lists s) \<le> max_archives \<Longrightarrow>
   length (archived_lists (apply_op F s op)) \<le> max_archives"
proof (cases op)
  case (ArchiveAndRestart sn now lbl)
  assume "length (archived_lists s) \<le> max_archives"
  then show ?thesis using ArchiveAndRestart by (simp add: ring_archive_le)
next
  case (DeleteArchive i)
  assume "length (archived_lists s) \<le> max_archives"
  then show ?thesis using DeleteArchive ring_delete_le[of s i] by simp
next
  case (DeleteMultipleArchives idx)
  assume "length (archived_lists s) \<le> max_archives"
  then show ?thesis using DeleteMultipleArchives ring_delete_multiple_le[of s idx] by simp
qed (simp_all add: ring_add ring_remove ring_update_quantity ring_set_budget ring_clear
      ring_update_catalog ring_restore)

lemma reachable_ring_bounded:
  "reachable_from F s0 s \<Longrightarrow> length (archived_lists s0) \<le> max_archives \<Longrightarrow>
   length (archived_lists s) \<le> max_archives"
  by (induction rule: reachable_from.induct) (auto intro: apply_op_ring_bounded)

lemma archive_success_ring:
  assumes "archive_and_restart F s sn now lbl = ((True, m), s')"
  shows "\<exists>entry. date entry = now \<and> date_label entry = lbl
          \<and> items entry = (if truthy sn then filter (\<lambda>item. Some (store item) = sn) (shopping_list s)
                            else shopping_list s)
          \<and> archived_lists s' = entry # take 5 (archived_lists s)"
  using assms
  by (auto simp: archive_and_restart_def force_save_def Let_def max_archives_def split: if_splits)

lemma reachable_run_ops: "reachable_from F s0 (run_ops F s0 ops)"
  unfolding run_ops_def
  by (induction ops rule: rev_induct) (auto intro: reachable_from.intros)

lemma full_ring_eval:
  "map date (archived_lists demo_full_ring) = [[6], [5], [4], [3], [2], [1]]"
  "fst (fst (archive_and_restart double_lib demo_full_ring (Some (ascii ''Costco'')) [7] []))"
  by (simp_all add: demo_full_ring_def demo_defs op_defs archive_and_restart_def truthy_def Let_def max_archives_def)

text \<open>
  Claim C5. In every state reached from a fresh manager by the mutating methods, the ring
  holds at most 6 entries. A successful \<^verbatim>\<open>archive_and_restart\<close> puts the new entry at
  index 0; below capacity the old entries follow it unchanged, and at capacity 6 exactly
  the last (oldest) entry is dropped and the other five follow in their order.
\<close>

theorem archive_ring_capacity:
  "(reachable_from F (initial_manager catalogue email) s \<longrightarrow> length (archived_lists s) \<le> 6)
   \<and> (archive_and_restart F s sn now lbl = ((True, m), s') \<longrightarrow>
        (\<exists>entry. date entry = now \<and> date_label entry = lbl
           \<and> items entry =
               (if truthy sn then filter (\<lambda>item. Some (store item) = sn) (shopping_list s)
                else shopping_list s)
           \<and> archived_lists s' ! 0 = entry
           \<and> (length (archived_lists s) < 6 \<longrightarrow> archived_lists s' = entry # archived_lists s)
           \<and> (length (archived_lists s) = 6 \<longrightarrow>
                 archived_lists s' = entry # butlast (archived_lists s))))"
proof (intro conjI impI)
  assume "reachable_from F (initial_manager catalogue email) s"
  from reachable_ring_bounded[OF this] show "length (archived_lists s) \<le> 6"
    by (simp add: initial_manager_def max_archives_def)
next
  assume "archive_and_restart F s sn now lbl = ((True, m), s')"
  from archive_success_ring[OF this] obtain entry where e:
    "date entry = now" "date_label entry = lbl"
    "items entry = (if truthy sn then filter (\<lambda>item. Some (store item) = sn) (shopping_list s)
                            else shopping_list s)"
    "archived_lists s' = entry # take 5 (archived_lists s)" by blast
  have "length (archived_lists s) = 6 \<longrightarrow> take 5 (archived_lists s) = butlast (archived_lists s)"
    by (simp add: butlast_conv_take)
  with e show "\<exists>entry. date entry = now \<and> date_label entry = lbl
           \<and> items entry =
               (if truthy sn then filter (\<lambda>item. Some (store item) = sn) (shopping_list s)
                else shopping_list s)
           \<and> archived_lists s' ! 0 = entry
           \<and> (length (archived_lists s) < 6 \<longrightarrow> archived_lists s' = entry # archived_lists s)
           \<and> (length (archived_lists s) = 6 \<longrightarrow>
                 archived_lists s' = entry # butlast (archived_lists s))"
    by auto
qed

theorem archive_ring_capacity_witness:
  "length (archived_lists demo_full_ring) \<le> 6
   \<and> map date (archived_lists
          (snd (archive_and_restart double_lib demo_full_ring (Some (ascii ''Costco'')) [7] [])))
     = [[7], [6], [5], [4], [3], [2]]"
proof -
  let ?r = "archive_and_restart double_lib demo_full_ring (Some (ascii ''Costco'')) [7] []"
  have h1: "reachable_from double_lib (initial_manager seed_excerpt (ascii ''user@example.com'')) demo_full_ring"
    unfolding demo_full_ring_def demo_manager_def by (rule reachable_run_ops)
  have h2: "?r = ((True, snd (fst ?r)), snd ?r)"
    using full_ring_eval(2) by (simp add: prod_eq_iff)
  have len: "length (archived_lists demo_full_ring) = 6"
    using arg_cong[OF full_ring_eval(1), of length] by simp
  from archive_ring_capacity[of double_lib seed_excerpt "ascii ''user@example.com''" demo_full_ring
      "Some (ascii ''Costco'')" "[7]" "[]" "snd (fst ?r)" "snd ?r"] h1 h2
  obtain entry where e: "length (archived_lists demo_full_ring) \<le> 6" "date entry = [7]"
    "archived_lists (snd ?r) = entry # butlast (archived_lists demo_full_ring)"
    using len by auto
  have "map date (butlast (archived_lists demo_full_ring)) = [[6], [5], [4], [3], [2]]"
    unfolding map_butlast full_ring_eval(1) by simp
  with e show ?thesis by simp
qed

section \<open>Editing a catalogue item\<close>

text \<open>
  What the two search loops do to a list: the first match is rewritten in place, and a
  list without a match is left alone.
\<close>

lemma update_first_Some:
  "update_first P f xs = Some ys \<Longrightarrow>
   \<exists>xs1 x xs2. xs = xs1 @ x # xs2 \<and> P x \<and> (\<forall>y\<in>set xs1. \<not> P y) \<and> ys = xs1 @ f x # xs2"
proof (induction xs arbitrary: ys)
  case Nil
  then show ?case by simp
next
  case (Cons a xs)
  show ?case
  proof (cases "P a")
    case True
    with Cons.prems have "ys = f a # xs" by simp
    with True show ?thesis by (intro exI[of _ "[]"] exI[of _ a] exI[of _ xs]) simp
  next
    case False
    with Cons.prems obtain zs where zs: "update_first P f xs = Some zs" "ys = a # zs"
      by (auto split: option.splits)
    from Cons.IH[OF zs(1)] obtain xs1 x xs2 where
      "xs = xs1 @ x # xs2" "P x" "\<forall>y\<in>set xs1. \<not> P y" "zs = xs1 @ f x # xs2" by blast
    with False zs(2) show ?thesis
      by (intro exI[of _ "a # xs1"] exI[of _ x] exI[of _ xs2]) simp
  qed
qed

lemma update_first_in_stores_None:
  "(update_first_in_stores P f sts = None) = (\<forall>x\<in>set (concat (map snd sts)). \<not> P x)"
  by (induction sts) (auto simp: update_first_None split: option.splits)

lemma update_first_in_stores_Some:
  "update_first_in_stores P f sts = Some sts' \<Longrightarrow>
   \<exists>pre k xs1 x xs2 post.
      sts = pre @ (k, xs1 @ x # xs2) # post \<and> P x
    \<and> (\<forall>y\<in>set (concat (map snd pre)) \<union> set xs1. \<not> P y)
    \<and> sts' = pre @ (k, xs1 @ f x # xs2) # post"
proof (induction sts arbitrary: sts')
  case Nil
  then show ?case by simp
next
  case (Cons a sts)
  obtain k xs where a: "a = (k, xs)" by (cases a)
  show ?case
  proof (cases "update_first P f xs")
    case (Some ys)
    with Cons.prems a have s': "sts' = (k, ys) # sts" by simp
    from update_first_Some[OF Some] obtain xs1 x xs2 where
      "xs = xs1 @ x # xs2" "P x" "\<forall>y\<in>set xs1. \<not> P y" "ys = xs1 @ f x # xs2" by blast
    with a s' show ?thesis
      by (intro exI[of _ "[]"] exI[of _ k] exI[of _ xs1] exI[of _ x] exI[of _ xs2] exI[of _ sts])
         simp
  next
    case None
    with Cons.prems a obtain rest' where r: "update_first_in_stores P f sts = Some rest'"
      "sts' = (k, xs) # rest'" by (auto split: option.splits)
    from None have nx: "\<forall>y\<in>set xs. \<not> P y" by (simp add: update_first_None)
    from Cons.IH[OF r(1)] obtain pre k' xs1 x xs2 post where
      "sts = pre @ (k', xs1 @ x # xs2) # post" "P x"
      "\<forall>y\<in>set (concat (map snd pre)) \<union> set xs1. \<not> P y"
      "rest' = pre @ (k', xs1 @ f x # xs2) # post" by blast
    with a r(2) nx show ?thesis
      by (intro exI[of _ "(k, xs) # pre"] exI[of _ k'] exI[of _ xs1] exI[of _ x] exI[of _ xs2]
            exI[of _ post]) auto
  qed
qed

lemma patch_item_fields:
  "item_id (patch_item n c p u x) = item_id x"
  "store (patch_item n c p u x) = store x"
  "default_quantity (patch_item n c p u x) = default_quantity x"
  "name (patch_item n c p u x) = (case n of None \<Rightarrow> name x | Some v \<Rightarrow> v)"
  "category (patch_item n c p u x) = (case c of None \<Rightarrow> category x | Some v \<Rightarrow> v)"
  "price (patch_item n c p u x) = (case p of None \<Rightarrow> price x | Some v \<Rightarrow> v)"
  "unit (patch_item n c p u x) = (case u of None \<Rightarrow> unit x | Some v \<Rightarrow> v)"
  by (simp_all add: patch_item_def)

lemma patch_item_quantity: "quantity (patch_item n c p u e) = quantity e"
  by (simp add: patch_item_def)

lemma map_no_match: "\<forall>e\<in>set xs. \<not> P e \<Longrightarrow> map (\<lambda>e. if P e then g e else e) xs = xs"
  by (induction xs) auto

lemma demo_cart_eval:
  "map (\<lambda>e. (item_id e, price e, quantity e)) (shopping_list demo_cart) =
     [(ascii ''co-1'', to_binary64 (1999 / 100), 2), (ascii ''sw-1'', to_binary64 (499 / 100), 1)]"
  "map item_id (concat (map snd (stores demo_cart))) = [ascii ''sw-1'', ascii ''co-1'']"
  by (simp_all add: demo_defs op_defs)

text \<open>
  Claim C7. When some store holds an item with id \<open>i\<close>, \<^verbatim>\<open>update_catalog_item\<close> returns
  \<^verbatim>\<open>True\<close>; the first such item (in the order of the stores and of their lists) receives
  the arguments that are not \<^verbatim>\<open>None\<close> and keeps its other fields, no other catalogue item
  changes, every cart entry with id \<open>i\<close> receives the same values, and a cart without such
  an entry is unchanged. When no store holds the id, the call returns \<^verbatim>\<open>False\<close> and the
  state is unchanged.
\<close>

theorem update_catalog_item_syncs_cart:
  "((\<exists>item\<in>set (concat (map snd (stores s))). item_id item = i) \<longrightarrow>
      (\<exists>pre k xs1 item xs2 post s'.
          stores s = pre @ (k, xs1 @ item # xs2) # post \<and> item_id item = i
        \<and> (\<forall>y\<in>set (concat (map snd pre)) \<union> set xs1. item_id y \<noteq> i)
        \<and> update_catalog_item s i n c p u = (True, s')
        \<and> stores s' = pre @ (k, xs1 @ patch_item n c p u item # xs2) # post
        \<and> name (patch_item n c p u item) = (case n of None \<Rightarrow> name item | Some v \<Rightarrow> v)
        \<and> category (patch_item n c p u item) = (case c of None \<Rightarrow> category item | Some v \<Rightarrow> v)
        \<and> price (patch_item n c p u item) = (case p of None \<Rightarrow> price item | Some v \<Rightarrow> v)
        \<and> unit (patch_item n c p u item) = (case u of None \<Rightarrow> unit item | Some v \<Rightarrow> v)
        \<and> item_id (patch_item n c p u item) = item_id item
        \<and> store (patch_item n c p u item) = store item
        \<and> default_quantity (patch_item n c p u item) = default_quantity item
        \<and> shopping_list s' =
            map (\<lambda>e. if item_id e = i then patch_item n c p u e else e) (shopping_list s)
        \<and> ((\<forall>e\<in>set (shopping_list s). item_id e \<noteq> i) \<longrightarrow> shopping_list s' = shopping_list s)))
   \<and> ((\<forall>item\<in>set (concat (map snd (stores s))). item_id item \<noteq> i) \<longrightarrow>
        update_catalog_item s i n c p u = (False, s))"
proof (intro conjI impI)
  assume "\<exists>item\<in>set (concat (map snd (stores s))). item_id item = i"
  then have "update_first_in_stores (\<lambda>item. item_id item = i) (patch_item n c p u) (stores s) \<noteq> None"
    by (simp add: update_first_in_stores_None)
  then obtain sts where sts:
    "update_first_in_stores (\<lambda>item. item_id item = i) (patch_item n c p u) (stores s) = Some sts"
    by blast
  from update_first_in_stores_Some[OF sts] obtain pre k xs1 item xs2 post where split:
    "stores s = pre @ (k, xs1 @ item # xs2) # post" "item_id item = i"
    "\<forall>y\<in>set (concat (map snd pre)) \<union> set xs1. item_id y \<noteq> i"
    "sts = pre @ (k, xs1 @ patch_item n c p u item # xs2) # post" by blast
  let ?cart = "map (\<lambda>e. if item_id e = i then patch_item n c p u e else e) (shopping_list s)"
  let ?s' = "schedule_save (s\<lparr>stores := sts, shopping_list := ?cart\<rparr>)"
  have res: "update_catalog_item s i n c p u = (True, ?s')"
    using sts by (simp add: update_catalog_item_def)
  have st: "stores ?s' = sts" "shopping_list ?s' = ?cart" by (simp_all add: schedule_save_def)
  have same: "(\<forall>e\<in>set (shopping_list s). item_id e \<noteq> i) \<longrightarrow> shopping_list ?s' = shopping_list s"
    unfolding st using map_no_match[of "shopping_list s" "\<lambda>e. item_id e = i"] by blast
  show "\<exists>pre k xs1 item xs2 post s'.
          stores s = pre @ (k, xs1 @ item # xs2) # post \<and> item_id item = i
        \<and> (\<forall>y\<in>set (concat (map snd pre)) \<union> set xs1. item_id y \<noteq> i)
        \<and> update_catalog_item s i n c p u = (True, s')
        \<and> stores s' = pre @ (k, xs1 @ patch_item n c p u item # xs2) # post
        \<and> name (patch_item n c p u item) = (case n of None \<Rightarrow> name item | Some v \<Rightarrow> v)
        \<and> category (patch_item n c p u item) = (case c of None \<Rightarrow> category item | Some v \<Rightarrow> v)
        \<and> price (patch_item n c p u item) = (case p of None \<Rightarrow> price item | Some v \<Rightarrow> v)
        \<and> unit (patch_item n c p u item) = (case u of None \<Rightarrow> unit item | Some v \<Rightarrow> v)
        \<and> item_id (patch_item n c p u item) = item_id item
        \<and> store (patch_item n c p u item) = store item
        \<and> default_quantity (patch_item n c p u item) = default_quantity item
        \<and> shopping_list s' =
            map (\<lambda>e. if item_id e = i then patch_item n c p u e else e) (shopping_list s)
        \<and> ((\<forall>e\<in>set (shopping_list s). item_id e \<noteq> i) \<longrightarrow> shopping_list s' = shopping_list s)"
    apply (rule exI[of _ pre], rule exI[of _ k], rule exI[of _ xs1], rule exI[of _ item],
        rule exI[of _ xs2], rule exI[of _ post], rule exI[of _ ?s'])
    using split res st same by (simp add: patch_item_fields schedule_save_def)
next
  assume "\<forall>item\<in>set (concat (map snd (stores s))). item_id item \<noteq> i"
  then have "update_first_in_stores (\<lambda>item. item_id item = i) (patch_item n c p u) (stores s) = None"
    by (simp add: update_first_in_stores_None)
  then show "update_catalog_item s i n c p u = (False, s)"
    by (simp add: update_catalog_item_def)
qed

theorem update_catalog_item_syncs_cart_witness:
  "fst (update_catalog_item demo_cart (ascii ''co-1'') (Some (ascii ''Towels'')) None (Some 21) None)
   \<and> map (\<lambda>e. (item_id e, price e, quantity e))
        (shopping_list (snd (update_catalog_item demo_cart (ascii ''co-1'')
                               (Some (ascii ''Towels'')) None (Some 21) None)))
     = [(ascii ''co-1'', 21, 2), (ascii ''sw-1'', to_binary64 (499 / 100), 1)]
   \<and> update_catalog_item demo_cart (ascii ''zz-9'') (Some (ascii ''Towels'')) None (Some 21) None
     = (False, demo_cart)"
proof -
  let ?n = "Some (ascii ''Towels'')"
  have h1: "\<exists>item\<in>set (concat (map snd (stores demo_cart))). item_id item = ascii ''co-1''"
    by (simp add: demo_defs op_defs)
  have h2: "\<forall>item\<in>set (concat (map snd (stores demo_cart))). item_id item \<noteq> ascii ''zz-9''"
    by (simp add: demo_defs op_defs)
  from update_catalog_item_syncs_cart[of demo_cart "ascii ''co-1''" ?n None "Some 21" None] h1
  obtain s' where s': "update_catalog_item demo_cart (ascii ''co-1'') ?n None (Some 21) None = (True, s')"
    "shopping_list s' = map (\<lambda>e. if item_id e = ascii ''co-1'' then patch_item ?n None (Some 21) None e else e)
        (shopping_list demo_cart)" by blast
  have "map (\<lambda>e. (item_id e, price e, quantity e)) (shopping_list s') =
        map (\<lambda>t. if fst t = ascii ''co-1'' then (fst t, 21, snd (snd t)) else t)
          (map (\<lambda>e. (item_id e, price e, quantity e)) (shopping_list demo_cart))"
    unfolding s'(2) by (simp add: patch_item_def o_def cong: map_cong)
  then have cart: "map (\<lambda>e. (item_id e, price e, quantity e)) (shopping_list s') =
     [(ascii ''co-1'', 21, 2), (ascii ''sw-1'', to_binary64 (499 / 100), 1)]"
    unfolding demo_cart_eval(1) by (simp add: ascii_def)
  from update_catalog_item_syncs_cart[of demo_cart "ascii ''zz-9''" ?n None "Some 21" None] h2
  have "update_catalog_item demo_cart (ascii ''zz-9'') ?n None (Some 21) None = (False, demo_cart)"
    by blast
  with s'(1) cart show ?thesis by simp
qed

section \<open>Deleting archives\<close>

lemma nths_cong_below:
  "(\<And>j. j < length xs \<Longrightarrow> (j \<in> A) = (j \<in> B)) \<Longrightarrow> nths xs A = nths xs B"
proof -
  assume h: "\<And>j. j < length xs \<Longrightarrow> (j \<in> A) = (j \<in> B)"
  have "filter (\<lambda>p. snd p \<in> A) (zip xs [0..<length xs]) =
        filter (\<lambda>p. snd p \<in> B) (zip xs [0..<length xs])"
  proof (rule filter_cong[OF refl])
    fix p assume "p \<in> set (zip xs [0..<length xs])"
    then have "snd p \<in> set [0..<length xs]" by (metis in_set_zipE prod.collapse)
    then show "(snd p \<in> A) = (snd p \<in> B)" using h by simp
  qed
  then show ?thesis by (simp add: nths_def)
qed

text \<open>Popping position \<open>k\<close> when every index still to be removed lies below \<open>k\<close>.\<close>

lemma nths_pop_at:
  assumes "k < length xs" and "\<And>j. k \<le> j \<Longrightarrow> j \<in> A"
  shows "nths (pop_at k xs) A = nths xs (A - {k})"
proof -
  have len: "length (take k xs) = k" using assms(1) by simp
  have xs: "xs = take k xs @ xs ! k # drop (Suc k) xs"
    using assms(1) by (simp add: id_take_nth_drop[symmetric])
  have l: "nths (pop_at k xs) A = nths (take k xs) A @ drop (Suc k) xs"
    unfolding pop_at_def nths_append len
    using assms(2) by (simp add: nths_all)
  have "nths xs (A - {k}) = nths (take k xs @ xs ! k # drop (Suc k) xs) (A - {k})"
    using xs by simp
  also have "\<dots> = nths (take k xs) (A - {k}) @ nths (xs ! k # drop (Suc k) xs) {j. j + k \<in> A - {k}}"
    unfolding nths_append len ..
  also have "nths (take k xs) (A - {k}) = nths (take k xs) A"
    by (rule nths_cong_below) (use len in auto)
  also have "nths (xs ! k # drop (Suc k) xs) {j. j + k \<in> A - {k}} = drop (Suc k) xs"
    unfolding nths_Cons using assms(2) by (simp add: nths_all)
  finally show ?thesis using l by simp
qed

lemma delete_loop_descending:
  assumes "sorted (rev idx)" and "distinct idx"
  shows "delete_loop idx xs n =
           (nths xs {j. int j \<notin> set idx},
            n + length (filter (\<lambda>i. 0 \<le> i \<and> i < int (length xs)) idx))"
  using assms
proof (induction idx arbitrary: xs n)
  case Nil
  then show ?case by (simp add: nths_all)
next
  case (Cons i idx)
  from Cons.prems have below: "\<forall>j\<in>set idx. j < i" and sd: "sorted (rev idx)" "distinct idx"
    by (auto simp: sorted_append order_less_le)
  show ?case
  proof (cases "0 \<le> i \<and> i < int (length xs)")
    case True
    let ?k = "nat i"
    have k: "?k < length xs" using True by linarith
    have A: "\<And>j. ?k \<le> j \<Longrightarrow> j \<in> {j. int j \<notin> set idx}"
      using below True by auto
    have "{j. int j \<notin> set idx} - {?k} = {j. int j \<notin> set (i # idx)}"
      using True by auto
    with nths_pop_at[OF k A] have ring:
      "nths (pop_at ?k xs) {j. int j \<notin> set idx} = nths xs {j. int j \<notin> set (i # idx)}"
      by simp
    have "filter (\<lambda>j. 0 \<le> j \<and> j < int (length (pop_at ?k xs))) idx =
          filter (\<lambda>j. 0 \<le> j \<and> j < int (length xs)) idx"
      by (rule filter_cong[OF refl]) (use below True k in \<open>auto simp: pop_at_def\<close>)
    with Cons.IH[OF sd, of "pop_at ?k xs" "n + 1"] ring True show ?thesis by simp
  next
    case False
    have "nths xs {j. int j \<notin> set idx} = nths xs {j. int j \<notin> set (i # idx)}"
      by (rule nths_cong_below) (use False in auto)
    moreover have "delete_loop (i # idx) xs n = delete_loop idx xs n" using False by auto
    moreover have "filter (\<lambda>j. 0 \<le> j \<and> j < int (length xs)) (i # idx) =
                   filter (\<lambda>j. 0 \<le> j \<and> j < int (length xs)) idx" using False by auto
    ultimately show ?thesis using Cons.IH[OF sd, of xs n] by simp
  qed
qed

lemma delete_loop_out_of_bounds:
  "\<forall>i\<in>set idx. i < 0 \<or> int (length xs) \<le> i \<Longrightarrow> delete_loop idx xs n = (xs, n)"
  by (induction idx arbitrary: xs n) auto

lemma sorted_desc: "sorted (rev (rev (sort (idx :: int list))))" "distinct (rev (sort idx)) = distinct idx"
  "set (rev (sort idx)) = set idx"
  by simp_all

text \<open>
  With a repeated index the second pop removes the entry that has moved into the place of
  the first; the pages build the list from distinct check boxes.
\<close>

lemma delete_multiple_archives_repeated_index:
  "archived_lists s = [a, b, c] \<Longrightarrow>
   delete_multiple_archives s [1, 1] =
     ((True, DeletedArchives 2), force_save (s\<lparr>archived_lists := [a]\<rparr>))"
  by (simp add: delete_multiple_archives_def pop_at_def)

text \<open>
  Claim C9. \<^verbatim>\<open>delete_multiple_archives\<close> pops the indices in descending order
  (\<open>rev (sort indices)\<close>), each checked against the ring as it is at that moment. For
  indices without repetition the ring that remains consists of exactly the entries whose
  original position is not among the indices. Deleting \<open>[0, 2]\<close> from a ring of three
  leaves the entry that was at index 1 and reports two deletions. When every index is out
  of bounds the call reports failure (no deletion) and the state is unchanged.
\<close>

theorem delete_multiple_archives_descending:
  "archived_lists (snd (delete_multiple_archives s indices)) =
     fst (delete_loop (rev (sort indices)) (archived_lists s) 0)
   \<and> (distinct indices \<longrightarrow>
        archived_lists (snd (delete_multiple_archives s indices)) =
          nths (archived_lists s) {j. int j \<notin> set indices})
   \<and> (archived_lists s = [a, b, c] \<longrightarrow>
        delete_multiple_archives s [0, 2] =
          ((True, DeletedArchives 2), force_save (s\<lparr>archived_lists := [b]\<rparr>)))
   \<and> (indices \<noteq> [] \<and> (\<forall>i\<in>set indices. i < 0 \<or> int (length (archived_lists s)) \<le> i) \<longrightarrow>
        delete_multiple_archives s indices = ((False, NoValidArchives), s))"
proof (intro conjI impI)
  show loop: "archived_lists (snd (delete_multiple_archives s indices)) =
     fst (delete_loop (rev (sort indices)) (archived_lists s) 0)"
    by (cases "delete_loop (rev (sort indices)) (archived_lists s) 0"; cases "indices = []")
       (simp_all add: delete_multiple_archives_def force_save_def)
  assume "distinct indices"
  then have "delete_loop (rev (sort indices)) (archived_lists s) 0 =
      (nths (archived_lists s) {j. int j \<notin> set (rev (sort indices))},
       0 + length (filter (\<lambda>i. 0 \<le> i \<and> i < int (length (archived_lists s))) (rev (sort indices))))"
    by (intro delete_loop_descending) simp_all
  with loop show "archived_lists (snd (delete_multiple_archives s indices)) =
          nths (archived_lists s) {j. int j \<notin> set indices}" by simp
next
  assume "archived_lists s = [a, b, c]"
  then show "delete_multiple_archives s [0, 2] =
          ((True, DeletedArchives 2), force_save (s\<lparr>archived_lists := [b]\<rparr>))"
    by (simp add: delete_multiple_archives_def pop_at_def)
next
  assume h: "indices \<noteq> [] \<and> (\<forall>i\<in>set indices. i < 0 \<or> int (length (archived_lists s)) \<le> i)"
  then have "delete_loop (rev (sort indices)) (archived_lists s) 0 = (archived_lists s, 0)"
    by (intro delete_loop_out_of_bounds) simp
  with h show "delete_multiple_archives s indices = ((False, NoValidArchives), s)"
    by (simp add: delete_multiple_archives_def)
qed

lemma three_trips_dates:
  "map date (archived_lists demo_three_trips) = [[3], [2], [1]]"
  by (simp add: demo_three_trips_def demo_defs op_defs archive_and_restart_def truthy_def
        Let_def max_archives_def)

theorem delete_multiple_archives_descending_witness:
  "map date (archived_lists (snd (delete_multiple_archives demo_three_trips [2, 0]))) = [[2]]
   \<and> map date (archived_lists (snd (delete_multiple_archives demo_three_trips [0, 2]))) = [[2]]
   \<and> fst (delete_multiple_archives demo_three_trips [0, 2]) = (True, DeletedArchives 2)
   \<and> delete_multiple_archives demo_three_trips [5, - 1] =
       ((False, NoValidArchives), demo_three_trips)"
proof -
  from three_trips_dates obtain a b c where ring: "archived_lists demo_three_trips = [a, b, c]"
    and dates: "date a = [3]" "date b = [2]" "date c = [1]"
    by (auto simp: map_eq_Cons_conv)
  have d: "distinct [2, 0 :: int]" by simp
  have oob: "[5, - 1] \<noteq> ([] :: int list) \<and>
     (\<forall>i\<in>set [5, - 1 :: int]. i < 0 \<or> int (length (archived_lists demo_three_trips)) \<le> i)"
    by (simp add: ring)
  have "archived_lists (snd (delete_multiple_archives demo_three_trips [2, 0])) =
          nths (archived_lists demo_three_trips) {j. int j \<notin> set [2, 0]}"
    using delete_multiple_archives_descending[of demo_three_trips "[2, 0]" a b c] d by blast
  then have p1: "map date (archived_lists (snd (delete_multiple_archives demo_three_trips [2, 0]))) = [[2]]"
    by (simp add: ring nths_Cons dates)
  have p2: "delete_multiple_archives demo_three_trips [0, 2] =
          ((True, DeletedArchives 2), force_save (demo_three_trips\<lparr>archived_lists := [b]\<rparr>))"
    using delete_multiple_archives_descending[of demo_three_trips "[0, 2]" a b c] ring by blast
  have p3: "delete_multiple_archives demo_three_trips [5, - 1] =
       ((False, NoValidArchives), demo_three_trips)"
    using delete_multiple_archives_descending[of demo_three_trips "[5, - 1]" a b c] oob by blast
  from p1 p2 p3 dates show ?thesis by (simp add: force_save_def)
qed

section \<open>One cart entry per id\<close>

text \<open>
  The cart methods other than \<^verbatim>\<open>restore_from_archive\<close> keep the ids of the cart
  distinct.
\<close>

lemmas archive_defs = archive_and_restart_def restore_from_archive_def truthy_def Let_def
  max_archives_def

lemma update_first_keeps_ids:
  "update_first P f xs = Some ys \<Longrightarrow> (\<And>x. item_id (f x) = item_id x) \<Longrightarrow>
   map item_id ys = map item_id xs"
  by (induction xs arbitrary: ys) (auto split: if_splits option.splits)

lemma add_keeps_distinct:
  assumes "distinct (map item_id (shopping_list s))"
  shows "distinct (map item_id (shopping_list (snd (add_to_shopping_list s i q))))"
proof (cases "find_catalog_item (stores s) i")
  case None
  then show ?thesis using assms by (simp add: add_to_shopping_list_def)
next
  case (Some item)
  show ?thesis
  proof (cases "update_first (\<lambda>e. item_id e = i) (\<lambda>e. e\<lparr>quantity := quantity e + q\<rparr>)
                  (shopping_list s)")
    case None
    then have "i \<notin> set (map item_id (shopping_list s))" by (auto simp: update_first_None)
    with None Some assms find_catalog_item_id[OF Some] show ?thesis
      by (simp add: add_to_shopping_list_def schedule_save_def)
  next
    case (Some ys)
    from update_first_keeps_ids[OF Some] have "map item_id ys = map item_id (shopping_list s)"
      by simp
    with Some \<open>find_catalog_item (stores s) i = Some item\<close> assms show ?thesis
      by (simp add: add_to_shopping_list_def schedule_save_def)
  qed
qed

lemma remove_keeps_distinct:
  "distinct (map item_id (shopping_list s)) \<Longrightarrow>
   distinct (map item_id (shopping_list (remove_from_shopping_list s i)))"
  by (simp add: remove_from_shopping_list_def schedule_save_def distinct_map_filter)

lemma update_quantity_keeps_ids:
  "map item_id (shopping_list (snd (update_quantity s i q))) = map item_id (shopping_list s)"
proof (cases "update_first (\<lambda>item. item_id item = i) (\<lambda>item. item\<lparr>quantity := q\<rparr>) (shopping_list s)")
  case None
  then show ?thesis by (simp add: update_quantity_def)
next
  case (Some ys)
  from update_first_keeps_ids[OF Some] Some show ?thesis
    by (simp add: update_quantity_def schedule_save_def)
qed

lemma update_catalog_item_keeps_ids:
  "map item_id (shopping_list (snd (update_catalog_item s i n c p u))) =
   map item_id (shopping_list s)"
  by (cases "update_first_in_stores (\<lambda>item. item_id item = i) (patch_item n c p u) (stores s)")
     (simp_all add: update_catalog_item_def schedule_save_def patch_item_fields o_def
        if_distrib[of item_id] cong: if_cong)

lemma clear_keeps_distinct: "distinct (map item_id (shopping_list (clear_shopping_list s)))"
  by (simp add: clear_shopping_list_def schedule_save_def)

lemma archive_keeps_distinct:
  "distinct (map item_id (shopping_list s)) \<Longrightarrow>
   distinct (map item_id (shopping_list (snd (archive_and_restart F s sn now lbl))))"
  by (simp add: archive_and_restart_def force_save_def Let_def distinct_map_filter)

text \<open>
  Restoring the archive of one store keeps the ids distinct when the archive holds distinct
  ids, all of that store, and an id never belongs to two stores.
\<close>

lemma restore_store_archive_keeps_distinct:
  assumes "distinct (map item_id (shopping_list s))"
    and "0 \<le> k" and "k < int (length (archived_lists s))"
    and "arch_store (archived_lists s ! nat k) = Some sn" and "sn \<noteq> []"
    and "distinct (map item_id (items (archived_lists s ! nat k)))"
    and "\<forall>a\<in>set (items (archived_lists s ! nat k)). store a = sn"
    and "\<forall>e\<in>set (shopping_list s). \<forall>a\<in>set (items (archived_lists s ! nat k)).
           item_id e = item_id a \<longrightarrow> store e = store a"
  shows "distinct (map item_id (shopping_list (snd (restore_from_archive s k))))"
proof -
  let ?a = "archived_lists s ! nat k"
  let ?kept = "filter (\<lambda>item. store item \<noteq> sn) (shopping_list s)"
  have cart: "shopping_list (snd (restore_from_archive s k)) = ?kept @ items ?a"
    using assms(2-5) by (simp add: restore_from_archive_def truthy_def Let_def schedule_save_def)
  have "distinct (map item_id ?kept)" using assms(1) by (simp add: distinct_map_filter)
  moreover have "set (map item_id ?kept) \<inter> set (map item_id (items ?a)) = {}"
    using assms(7,8) by fastforce
  ultimately show ?thesis unfolding cart using assms(6) by simp
qed

text \<open>
  Claim C1 says that in every reachable state the cart has at most one entry per item id
  and that every cart operation, \<^verbatim>\<open>restore_from_archive\<close> included, keeps it so. The
  code does not: \<^verbatim>\<open>archive_and_restart(None)\<close> labels its entry \<^verbatim>\<open>'All Stores'\<close>, and
  \<^verbatim>\<open>restore_from_archive\<close> then removes only cart entries whose store is
  \<^verbatim>\<open>'All Stores'\<close> (none) before it appends the archived items. From a fresh manager:
  add \<^verbatim>\<open>co-1\<close>, archive everything, add \<^verbatim>\<open>co-1\<close> again, restore archive 0; the cart
  then has two entries with id \<^verbatim>\<open>co-1\<close>.
\<close>

theorem restore_all_stores_archive_duplicates_id:
  "map item_id
     (shopping_list
        (run_ops double_lib demo_manager
           [AddToShoppingList (ascii ''co-1'') 1, ArchiveAndRestart None [1] [],
            AddToShoppingList (ascii ''co-1'') 1, RestoreFromArchive 0]))
     = [ascii ''co-1'', ascii ''co-1'']"
  by (simp add: demo_defs op_defs archive_defs)

section \<open>Restoring an archive\<close>

text \<open>
  An index out of bounds fails and changes nothing. An index in bounds succeeds, keeps the
  ring as it is, and replaces the cart: entries of the archive's store go (the whole cart
  when the archive has no store or an empty one), the archived items are appended.
\<close>

lemma restore_out_of_bounds:
  "k < 0 \<or> int (length (archived_lists s)) \<le> k \<Longrightarrow>
   restore_from_archive s k = ((False, InvalidArchiveIndex), s)"
  by (auto simp: restore_from_archive_def)

lemma restore_in_bounds:
  assumes "0 \<le> k" and "k < int (length (archived_lists s))"
  shows "fst (fst (restore_from_archive s k))"
    and "shopping_list (snd (restore_from_archive s k)) =
           (case arch_store (archived_lists s ! nat k) of
              None \<Rightarrow> []
            | Some sn \<Rightarrow> if sn = [] then []
                        else filter (\<lambda>item. store item \<noteq> sn) (shopping_list s))
           @ items (archived_lists s ! nat k)"
    and "archived_lists (snd (restore_from_archive s k)) = archived_lists s"
  using assms
  by (auto simp: restore_from_archive_def truthy_def Let_def schedule_save_def
        split: option.splits)

lemma all_stores_archived_eval:
  "map item_id (shopping_list demo_all_stores_archived) = []"
  "map arch_store (archived_lists demo_all_stores_archived) = [Some (ascii ''All Stores'')]"
  "map (\<lambda>a. map item_id (items a)) (archived_lists demo_all_stores_archived) = [[ascii ''co-1'']]"
  by (simp_all add: demo_all_stores_archived_def demo_defs op_defs archive_defs)

text \<open>
  Claim C3 says, among other things, that restoring an "all stores" snapshot clears the
  whole cart first. The branch that clears the cart is reached only when the archive has no
  store name; a snapshot that \<^verbatim>\<open>archive_and_restart(None)\<close> made is labelled
  \<^verbatim>\<open>'All Stores'\<close>, so nothing is removed. Below, the archive of all stores holds \<^verbatim>\<open>co-1\<close>,
  the cart holds \<^verbatim>\<open>sw-1\<close>, and after the restore the cart holds both.
\<close>

theorem restore_all_stores_archive_keeps_cart:
  "map arch_store (archived_lists demo_all_stores_archived) = [Some (ascii ''All Stores'')]
   \<and> map item_id (shopping_list (snd (add_to_shopping_list demo_all_stores_archived (ascii ''sw-1'') 1)))
       = [ascii ''sw-1'']
   \<and> fst (restore_from_archive
            (snd (add_to_shopping_list demo_all_stores_archived (ascii ''sw-1'') 1)) 0)
       = (True, Restored 1 [])
   \<and> map item_id
       (shopping_list
          (snd (restore_from_archive
                  (snd (add_to_shopping_list demo_all_stores_archived (ascii ''sw-1'') 1)) 0)))
       = [ascii ''sw-1'', ascii ''co-1'']"
  by (simp add: demo_all_stores_archived_def demo_defs op_defs archive_defs)

section \<open>Changing a quantity\<close>

text \<open>
  \<^verbatim>\<open>GroceryManager.update_quantity\<close> fails only for an id that is not in the cart;
  otherwise it writes the quantity it is given, whatever it is.
\<close>

lemma update_quantity_unknown_id:
  "\<forall>e\<in>set (shopping_list s). item_id e \<noteq> i \<Longrightarrow> update_quantity s i q = (False, s)"
proof -
  assume "\<forall>e\<in>set (shopping_list s). item_id e \<noteq> i"
  then have "update_first (\<lambda>item. item_id item = i) (\<lambda>item. item\<lparr>quantity := q\<rparr>)
               (shopping_list s) = None"
    by (simp add: update_first_None)
  then show ?thesis by (simp add: update_quantity_def)
qed

lemma update_quantity_overwrites:
  assumes "filter (\<lambda>e. item_id e = i) (shopping_list s) = [e]"
  shows "\<exists>s'. update_quantity s i q = (True, s')
          \<and> filter (\<lambda>e. item_id e = i) (shopping_list s') = [e\<lparr>quantity := q\<rparr>]
          \<and> filter (\<lambda>e. item_id e \<noteq> i) (shopping_list s') =
            filter (\<lambda>e. item_id e \<noteq> i) (shopping_list s)"
proof -
  have "e \<in> set (filter (\<lambda>e. item_id e = i) (shopping_list s))" using assms by simp
  then have "item_id e = i" by simp
  with update_first_filter_single[OF assms, of "\<lambda>e. e\<lparr>quantity := q\<rparr>"]
  show ?thesis by (auto simp: update_quantity_def schedule_save_def)
qed

text \<open>The guard that only the function of \<^verbatim>\<open>app.py\<close> has.\<close>

lemma update_item_quantity_guard:
  "q < 1 \<Longrightarrow> i \<noteq> [] \<Longrightarrow> str_strip L i \<noteq> [] \<Longrightarrow>
   update_item_quantity L s i q = (QuantityAtLeastOne, s)"
  by (simp add: update_item_quantity_def)

lemma update_item_quantity_unknown_id:
  "1 \<le> q \<Longrightarrow> i \<noteq> [] \<Longrightarrow> str_strip L i \<noteq> [] \<Longrightarrow>
   \<forall>e\<in>set (shopping_list s). item_id e \<noteq> str_strip L i \<Longrightarrow>
   update_item_quantity L s i q = (NotInCart i, s)"
  by (simp add: update_item_quantity_def find_None_iff[THEN iffD2])

text \<open>
  Claim C6 says that the operation fails and leaves the cart unchanged when the new
  quantity is below 1. \<^verbatim>\<open>update_item_quantity\<close> of \<^verbatim>\<open>app.py\<close> does;
  \<^verbatim>\<open>GroceryManager.update_quantity\<close> has no such check: for quantity 0 it returns
  \<^verbatim>\<open>True\<close> and the entry has quantity 0.
\<close>

theorem update_quantity_accepts_zero:
  "fst (update_quantity demo_cart (ascii ''co-1'') 0) = True
   \<and> map (\<lambda>e. (item_id e, quantity e)) (shopping_list (snd (update_quantity demo_cart (ascii ''co-1'') 0)))
       = [(ascii ''co-1'', 0), (ascii ''sw-1'', 1)]
   \<and> update_item_quantity sample_lib demo_cart (ascii ''co-1'') 0 = (QuantityAtLeastOne, demo_cart)"
  by (simp add: demo_defs op_defs update_quantity_def update_item_quantity_def sample_lib_def
        sample_strip_def is_space_def)

section \<open>Budget status\<close>

text \<open>Evaluating the float library at a number.\<close>

lemma binade_up_numeral:
  "binade_up (numeral k) x = (if 2 \<le> x then binade_up (pred_numeral k) (x / 2) + 1 else 0)"
  by (simp add: numeral_eq_Suc)

lemma binade_down_numeral:
  "binade_down (numeral k) x = (if x < 1 then binade_down (pred_numeral k) (x * 2) - 1 else 0)"
  by (simp add: numeral_eq_Suc)

lemma double_lib_simps:
  "fl_of_int double_lib i = to_binary64 (of_int i)"
  "fl_add double_lib x y = to_binary64 (x + y)"
  "fl_sub double_lib x y = to_binary64 (x - y)"
  "fl_mul double_lib x y = to_binary64 (x * y)"
  "fl_div double_lib x y = to_binary64 (x / y)"
  "fl_round double_lib x n = to_binary64 (decimal_round x n)"
  by (simp_all add: double_lib_def)

lemmas binary64_eval = double_lib_simps to_binary64_def binade_def binade_up_numeral
  binade_down_numeral two_power_def round_half_even_def decimal_round_def Let_def

lemma float_tenth_binary64: "to_binary64 (1 / 10) = float_tenth"
  by (simp add: binary64_eval float_tenth_def)

text \<open>The arithmetic of the two queries, written out with the float operations.\<close>

lemma cost_of_one:
  "cost_of F [e] =
     PyFloat (fl_add F (fl_of_int F 0) (fl_mul F (price e) (fl_of_int F (quantity e))))"
  by (simp add: cost_of_def py_sum_def py_add_def py_mul_def py_float_def)


lemma py_sub_float:
  "py_sub F a (PyFloat b) = PyFloat (fl_sub F (py_float F a) b)"
  "py_sub F (PyFloat b) a = PyFloat (fl_sub F b (py_float F a))"
  by (simp_all add: py_sub_def py_float_def split: number.splits)

lemma budget_percentage_total:
  "budget_percentage F tot b =
     Inr (if 0 < b then PyFloat (spec_percentage F tot b) else PyInt 0)"
  by (simp add: budget_percentage_def py_truediv_def py_mul_def py_float_def spec_percentage_def)

lemma get_budget_status_eval:
  "get_budget_status F s =
     Inr \<lparr>bs_total = get_total_cost F s, bs_budget = budget s,
          bs_percentage =
            (if 0 < budget s
             then PyFloat (fl_round F (spec_percentage F (get_total_cost F s) (budget s)) 1)
             else PyInt 0),
          bs_status =
            (if 0 < budget s
             then (if spec_percentage F (get_total_cost F s) (budget s) < 80 then OnTrack
                   else if spec_percentage F (get_total_cost F s) (budget s) < 100
                   then Approaching
                   else OverBudget
                          (PyFloat (fl_sub F (py_float F (get_total_cost F s)) (budget s))))
             else OnTrack),
          bs_color =
            (if 0 < budget s
             then (if spec_percentage F (get_total_cost F s) (budget s) < 80 then Green
                   else if spec_percentage F (get_total_cost F s) (budget s) < 100 then Yellow
                   else Red)
             else Green),
          bs_remaining =
            PyFloat (fl_round F (fl_sub F (budget s) (py_float F (get_total_cost F s))) 2)\<rparr>"
  by (simp add: get_budget_status_def budget_percentage_total Let_def py_sub_float py_round_def
        py_less_def num_val_def)

lemma app_get_budget_status_eval:
  "app_get_budget_status F s =
     Inr ((budget s, cost_of F (shopping_list s),
           PyFloat (fl_sub F (budget s) (py_float F (cost_of F (shopping_list s))))),
          (if fl_sub F (budget s) (py_float F (cost_of F (shopping_list s))) < 0
           then OverBudgetWarning
           else if fl_sub F (budget s) (py_float F (cost_of F (shopping_list s)))
                   < fl_mul F (budget s) float_tenth
           then ApproachingLimitWarning
           else OnTrackWarning),
          (if 0 < budget s
           then PyFloat (fl_div F (py_float F (cost_of F (shopping_list s))) (budget s))
           else PyInt 0))"
  by (simp add: app_get_budget_status_def Let_def py_sub_float py_mul_def py_float_def
        py_less_def num_val_def py_truediv_def)







text \<open>
  The float library gives what the machine gives where exact arithmetic would give
  something else. One item at 0.35 with a budget of 100: the percentage is the float 0.35,
  which lies below the decimal 0.35, and is reported as 0.3. One item at 4.52 with a budget
  of 5.65: the percentage is the float 79.99999999999999, so the status is \<open>OnTrack\<close>. One
  item at 2.675: the total is 2.67, because the float 2.675 lies below the decimal. One item
  at 10.8 with a budget of 12: \<^verbatim>\<open>budget - total\<close> is 1.1999999999999993 and
  \<^verbatim>\<open>budget * 0.1\<close> is 1.2000000000000002, so \<^verbatim>\<open>app.py\<close> warns.
\<close>

lemma one_item_cart_eval:
  "\<exists>e. shopping_list (one_item_cart p b) = [e] \<and> price e = p \<and> quantity e = 1"
  "budget (one_item_cart p b) = b"
  by (simp_all add: one_item_cart_def run_ops_def initial_manager_def costco_towels_def
        ascii_def op_defs set_budget_def)

lemma one_item_cart_cost:
  "cost_of F (shopping_list (one_item_cart p b)) =
     PyFloat (fl_add F (fl_of_int F 0) (fl_mul F p (fl_of_int F 1)))"
proof -
  from one_item_cart_eval(1)[of p b] obtain e where
    "shopping_list (one_item_cart p b) = [e]" "price e = p" "quantity e = 1" by blast
  then show ?thesis by (simp only: cost_of_one)
qed

lemma one_item_cart_total:
  "get_total_cost F (one_item_cart p b) =
     PyFloat (fl_round F (fl_add F (fl_of_int F 0) (fl_mul F p (fl_of_int F 1))) 2)"
  by (simp only: get_total_cost_def one_item_cart_cost py_round_def number.case)

lemma budget_status_thirty_five_cents:
  "\<exists>r. get_budget_status double_lib (one_item_cart (to_binary64 (35 / 100)) 100) = Inr r
       \<and> bs_percentage r = PyFloat (to_binary64 (3 / 10))"
proof -
  have t: "fl_round double_lib (fl_add double_lib (fl_of_int double_lib 0)
             (fl_mul double_lib (to_binary64 (35 / 100)) (fl_of_int double_lib 1))) 2 =
           to_binary64 (35 / 100)"
    by (simp add: binary64_eval)
  have p: "spec_percentage double_lib (PyFloat (to_binary64 (35 / 100))) 100 =
           to_binary64 (35 / 100)"
    by (simp add: spec_percentage_def py_float_def binary64_eval)
  have r: "fl_round double_lib (to_binary64 (35 / 100)) 1 = to_binary64 (3 / 10)"
    by (simp add: binary64_eval)
  have b: "(0::real) < 100" by simp
  show ?thesis
    unfolding get_budget_status_eval one_item_cart_total one_item_cart_eval(2) t p r
    using b by simp
qed

lemma budget_status_below_eighty:
  "\<exists>r. get_budget_status double_lib
          (one_item_cart (to_binary64 (452 / 100)) (to_binary64 (565 / 100))) = Inr r
       \<and> bs_status r = OnTrack"
proof -
  have t: "fl_round double_lib (fl_add double_lib (fl_of_int double_lib 0)
             (fl_mul double_lib (to_binary64 (452 / 100)) (fl_of_int double_lib 1))) 2 =
           to_binary64 (452 / 100)"
    by (simp add: binary64_eval)
  have p: "spec_percentage double_lib (PyFloat (to_binary64 (452 / 100)))
             (to_binary64 (565 / 100)) = 5629499534213119 / 70368744177664"
    by (simp add: spec_percentage_def py_float_def binary64_eval)
  have b: "0 < to_binary64 (565 / 100)" by (simp add: binary64_eval)
  have l: "(5629499534213119 / 70368744177664 :: real) < 80" by simp
  show ?thesis
    unfolding get_budget_status_eval one_item_cart_total one_item_cart_eval(2) t p
    using b l by simp
qed

lemma total_cost_of_binary_price:
  "get_total_cost double_lib (one_item_cart (to_binary64 (2675 / 1000)) b) =
     PyFloat (to_binary64 (267 / 100))"
proof -
  have "fl_round double_lib (fl_add double_lib (fl_of_int double_lib 0)
          (fl_mul double_lib (to_binary64 (2675 / 1000)) (fl_of_int double_lib 1))) 2 =
        to_binary64 (267 / 100)"
    by (simp add: binary64_eval)
  then show ?thesis by (simp only: one_item_cart_total)
qed

lemma app_budget_status_approaching:
  "\<exists>status ratio.
     app_get_budget_status double_lib (one_item_cart (to_binary64 (108 / 10)) 12) =
       Inr (status, ApproachingLimitWarning, ratio)"
proof -
  have c: "fl_add double_lib (fl_of_int double_lib 0)
             (fl_mul double_lib (to_binary64 (108 / 10)) (fl_of_int double_lib 1)) =
           to_binary64 (108 / 10)"
    by (simp add: binary64_eval)
  have r: "fl_sub double_lib 12 (to_binary64 (108 / 10)) = 337769972052787 / 281474976710656"
    by (simp add: binary64_eval)
  have l: "fl_mul double_lib 12 float_tenth = 1351079888211149 / 1125899906842624"
    by (simp add: binary64_eval float_tenth_def)
  show ?thesis
    unfolding app_get_budget_status_eval one_item_cart_cost one_item_cart_eval(2) c
      py_float_def number.case r l
    by simp
qed


section \<open>Duplicate names in a catalogue\<close>

lemma add_catalog_item_invalid:
  "nm = [] \<or> cat = [] \<or> pr \<le> 0 \<Longrightarrow> add_catalog_item L s st nm cat pr un = Inr (FillAllFields, s)"
  by (auto simp: add_catalog_item_def)

lemma add_catalog_item_duplicate:
  assumes "nm \<noteq> []" "cat \<noteq> []" "0 < pr"
    and "\<exists>item\<in>set (case map_of (stores s) st of None \<Rightarrow> [] | Some xs \<Rightarrow> xs).
           str_lower L (name item) = str_lower L (normalize_text L (str_strip L nm))"
  shows "add_catalog_item L s st nm cat pr un =
           Inr (AlreadyExists (normalize_text L (str_strip L nm)) st, s)"
  using assms by (simp add: add_catalog_item_def Let_def list_ex_iff)

lemma add_catalog_item_no_duplicate:
  assumes "nm \<noteq> []" "cat \<noteq> []" "0 < pr"
    and "\<not> (\<exists>item\<in>set (case map_of (stores s) st of None \<Rightarrow> [] | Some xs \<Rightarrow> xs).
           str_lower L (name item) = str_lower L (normalize_text L (str_strip L nm)))"
  shows "\<not> (\<exists>x y s'. add_catalog_item L s st nm cat pr un = Inr (AlreadyExists x y, s'))"
  using assms by (simp add: add_catalog_item_def Let_def list_ex_iff split: option.splits)

lemma normalize_text_cafe:
  assumes "str_strip L [67, 97, 102, 233] = [67, 97, 102, 233]"
    and "normalize_nfkd L [67, 97, 102, 233] = [67, 97, 102, 101, 769]"
    and "combining L 67 = 0" "combining L 97 = 0" "combining L 102 = 0" "combining L 101 = 0"
    and "combining L 769 \<noteq> 0"
    and "str_strip L [67, 97, 102, 101] = [67, 97, 102, 101]"
  shows "normalize_text L (str_strip L [67, 97, 102, 233]) = ascii ''Cafe''"
  using assms by (simp add: normalize_text_def ascii_def)

lemma sample_lib_cafe:
  "normalize_text sample_lib (str_strip sample_lib cafe_accented) = ascii ''Cafe''"
  "normalize_text sample_lib (str_strip sample_lib cafe_bold) = ascii ''Cafe''"
  by (simp_all add: normalize_text_def sample_lib_def sample_strip_def sample_nfkd_def
        sample_combining_def is_space_def cafe_accented_def cafe_bold_def ascii_def)

lemmas sample_defs = sample_lib_def sample_strip_def sample_lower_def sample_nfkd_def
  sample_combining_def sample_parse_int_def sample_format_int_def is_space_def

lemmas cafe_defs = cafe_manager_def costco_cafe_def initial_manager_def ascii_def
  cafe_accented_def cafe_bold_def

lemma cafe_store: "map_of (stores cafe_manager) (ascii ''Costco'') = Some [costco_cafe]"
  by (simp add: cafe_manager_def initial_manager_def)

lemma add_catalog_item_bold_cafe:
  "add_catalog_item sample_lib cafe_manager (ascii ''Costco'') cafe_bold (ascii ''Bulk Pantry'') 3
     (ascii ''each'') = Inr (AlreadyExists (ascii ''Cafe'') (ascii ''Costco''), cafe_manager)"
proof -
  have "cafe_bold \<noteq> []" "ascii ''Bulk Pantry'' \<noteq> []" by (simp_all add: cafe_defs)
  moreover have "\<exists>item\<in>set (case map_of (stores cafe_manager) (ascii ''Costco'') of
                              None \<Rightarrow> [] | Some xs \<Rightarrow> xs).
      str_lower sample_lib (name item) =
      str_lower sample_lib (normalize_text sample_lib (str_strip sample_lib cafe_bold))"
    unfolding cafe_store sample_lib_cafe by (simp add: costco_cafe_def)
  ultimately show ?thesis
    using add_catalog_item_duplicate[of cafe_bold "ascii ''Bulk Pantry''" 3 cafe_manager
        "ascii ''Costco''" sample_lib "ascii ''each''"] sample_lib_cafe(2) by simp
qed

lemma sample_format_two: "sample_format_int 2 = [50]"
  by (simp add: sample_format_int_def numeral_3_eq_3)

lemma add_catalog_item_new_name:
  "map_sum id (\<lambda>r. (fst r, map item_id (the (map_of (stores (snd r)) (ascii ''Costco'')))))
     (add_catalog_item sample_lib cafe_manager (ascii ''Costco'') (ascii '' Tea '')
        (ascii ''Bulk Pantry'') 3 (ascii ''each''))
   = Inr (AddedToCatalog (ascii ''Tea'') (ascii ''Costco''), [ascii ''co-1'', ascii ''co-2''])"
  by (simp add: add_catalog_item_def normalize_text_def max_id_of_def startswith_def
        schedule_save_def sample_lib_def sample_strip_def sample_lower_def sample_nfkd_def
        sample_combining_def sample_parse_int_def is_space_def sample_format_two
        cafe_defs Let_def)

text \<open>
  As claim C8 is written, the item is rejected as a duplicate exactly when its normalised
  name matches a name of the store. The field check comes first: with price 0 the item
  \<^verbatim>\<open>Cafe\<close> is refused with the message for invalid fields although the store has
  \<^verbatim>\<open>Cafe\<close>.
\<close>

theorem add_catalog_item_validation_precedes:
  "map_of (stores cafe_manager) (ascii ''Costco'') = Some [costco_cafe]
   \<and> str_lower sample_lib (name costco_cafe) =
       str_lower sample_lib (normalize_text sample_lib (str_strip sample_lib (ascii ''Cafe'')))
   \<and> add_catalog_item sample_lib cafe_manager (ascii ''Costco'') (ascii ''Cafe'')
        (ascii ''Bulk Pantry'') 0 (ascii ''each'') = Inr (FillAllFields, cafe_manager)"
proof -
  have "str_lower sample_lib (name costco_cafe) =
       str_lower sample_lib (normalize_text sample_lib (str_strip sample_lib (ascii ''Cafe'')))"
    by (simp add: normalize_text_def sample_defs cafe_defs)
  moreover have "add_catalog_item sample_lib cafe_manager (ascii ''Costco'') (ascii ''Cafe'')
        (ascii ''Bulk Pantry'') 0 (ascii ''each'') = Inr (FillAllFields, cafe_manager)"
    by (simp add: add_catalog_item_def)
  ultimately show ?thesis using cafe_store by simp
qed

text \<open>
  Claim C8, amended. For an input that passes the field check (name and category not
  empty, price above 0), \<^verbatim>\<open>add_catalog_item\<close> rejects the item as a duplicate exactly when
  the new name, stripped, NFKD-normalised, freed of combining marks, stripped again and
  lower-cased, equals the lower-cased name of an item of that store (stored names are
  lower-cased only); the state is then unchanged. An input that fails the field check is
  refused as invalid. In particular, given that the library decomposes U+00E9 into
  \<^verbatim>\<open>e\<close> and U+0301, that U+0301 is a combining mark and the ASCII letters are not, and
  that stripping leaves both words alone, adding \<^verbatim>\<open>Caf\<close>U+00E9 to a store that has
  \<^verbatim>\<open>Cafe\<close> is rejected as a duplicate.
\<close>

theorem add_catalog_item_duplicate_check:
  "(nm \<noteq> [] \<and> cat \<noteq> [] \<and> 0 < pr \<longrightarrow>
      (\<exists>x y s'. add_catalog_item L s st nm cat pr un = Inr (AlreadyExists x y, s')) =
      (\<exists>item\<in>set (case map_of (stores s) st of None \<Rightarrow> [] | Some xs \<Rightarrow> xs).
          str_lower L (name item) = str_lower L (normalize_text L (str_strip L nm))))
   \<and> (nm \<noteq> [] \<and> cat \<noteq> [] \<and> 0 < pr
       \<and> (\<exists>item\<in>set (case map_of (stores s) st of None \<Rightarrow> [] | Some xs \<Rightarrow> xs).
             str_lower L (name item) = str_lower L (normalize_text L (str_strip L nm))) \<longrightarrow>
      add_catalog_item L s st nm cat pr un =
        Inr (AlreadyExists (normalize_text L (str_strip L nm)) st, s))
   \<and> (nm = [] \<or> cat = [] \<or> pr \<le> 0 \<longrightarrow>
      add_catalog_item L s st nm cat pr un = Inr (FillAllFields, s))
   \<and> (cat \<noteq> [] \<and> 0 < pr
       \<and> str_strip L [67, 97, 102, 233] = [67, 97, 102, 233]
       \<and> normalize_nfkd L [67, 97, 102, 233] = [67, 97, 102, 101, 769]
       \<and> combining L 67 = 0 \<and> combining L 97 = 0 \<and> combining L 102 = 0 \<and> combining L 101 = 0
       \<and> combining L 769 \<noteq> 0
       \<and> str_strip L [67, 97, 102, 101] = [67, 97, 102, 101]
       \<and> (\<exists>item\<in>set (case map_of (stores s) st of None \<Rightarrow> [] | Some xs \<Rightarrow> xs).
             name item = ascii ''Cafe'') \<longrightarrow>
      add_catalog_item L s st [67, 97, 102, 233] cat pr un =
        Inr (AlreadyExists (ascii ''Cafe'') st, s))"
proof (intro conjI impI)
  assume v: "nm \<noteq> [] \<and> cat \<noteq> [] \<and> 0 < pr"
  show "(\<exists>x y s'. add_catalog_item L s st nm cat pr un = Inr (AlreadyExists x y, s')) =
      (\<exists>item\<in>set (case map_of (stores s) st of None \<Rightarrow> [] | Some xs \<Rightarrow> xs).
          str_lower L (name item) = str_lower L (normalize_text L (str_strip L nm)))"
    using v add_catalog_item_duplicate[of nm cat pr s st L un]
      add_catalog_item_no_duplicate[of nm cat pr s st L un] by blast
next
  assume "nm \<noteq> [] \<and> cat \<noteq> [] \<and> 0 < pr
       \<and> (\<exists>item\<in>set (case map_of (stores s) st of None \<Rightarrow> [] | Some xs \<Rightarrow> xs).
             str_lower L (name item) = str_lower L (normalize_text L (str_strip L nm)))"
  then show "add_catalog_item L s st nm cat pr un =
        Inr (AlreadyExists (normalize_text L (str_strip L nm)) st, s)"
    using add_catalog_item_duplicate[of nm cat pr s st L un] by blast
next
  assume "nm = [] \<or> cat = [] \<or> pr \<le> 0"
  then show "add_catalog_item L s st nm cat pr un = Inr (FillAllFields, s)"
    by (rule add_catalog_item_invalid)
next
  assume h: "cat \<noteq> [] \<and> 0 < pr
       \<and> str_strip L [67, 97, 102, 233] = [67, 97, 102, 233]
       \<and> normalize_nfkd L [67, 97, 102, 233] = [67, 97, 102, 101, 769]
       \<and> combining L 67 = 0 \<and> combining L 97 = 0 \<and> combining L 102 = 0 \<and> combining L 101 = 0
       \<and> combining L 769 \<noteq> 0
       \<and> str_strip L [67, 97, 102, 101] = [67, 97, 102, 101]
       \<and> (\<exists>item\<in>set (case map_of (stores s) st of None \<Rightarrow> [] | Some xs \<Rightarrow> xs).
             name item = ascii ''Cafe'')"
  then have n: "normalize_text L (str_strip L [67, 97, 102, 233]) = ascii ''Cafe''"
    by (intro normalize_text_cafe) simp_all
  from h have "\<exists>item\<in>set (case map_of (stores s) st of None \<Rightarrow> [] | Some xs \<Rightarrow> xs).
      str_lower L (name item) = str_lower L (normalize_text L (str_strip L [67, 97, 102, 233]))"
    unfolding n by auto
  with h show "add_catalog_item L s st [67, 97, 102, 233] cat pr un =
        Inr (AlreadyExists (ascii ''Cafe'') st, s)"
    using add_catalog_item_duplicate[of "[67, 97, 102, 233]" cat pr s st L un] n by simp
qed

theorem add_catalog_item_duplicate_check_witness:
  "add_catalog_item sample_lib cafe_manager (ascii ''Costco'') [67, 97, 102, 233]
       (ascii ''Bulk Pantry'') 3 (ascii ''each'')
     = Inr (AlreadyExists (ascii ''Cafe'') (ascii ''Costco''), cafe_manager)
   \<and> add_catalog_item sample_lib cafe_manager (ascii ''Costco'') (ascii ''Cafe'')
       (ascii ''Bulk Pantry'') 0 (ascii ''each'') = Inr (FillAllFields, cafe_manager)
   \<and> (\<exists>x y s'. add_catalog_item sample_lib cafe_manager (ascii ''Costco'') (ascii ''cafe'')
       (ascii ''Bulk Pantry'') 3 (ascii ''each'') = Inr (AlreadyExists x y, s'))"
proof -
  let ?st = "ascii ''Costco''" and ?cat = "ascii ''Bulk Pantry''" and ?un = "ascii ''each''"
  have lib: "?cat \<noteq> [] \<and> 0 < (3::real)
       \<and> str_strip sample_lib [67, 97, 102, 233] = [67, 97, 102, 233]
       \<and> normalize_nfkd sample_lib [67, 97, 102, 233] = [67, 97, 102, 101, 769]
       \<and> combining sample_lib 67 = 0 \<and> combining sample_lib 97 = 0
       \<and> combining sample_lib 102 = 0 \<and> combining sample_lib 101 = 0
       \<and> combining sample_lib 769 \<noteq> 0
       \<and> str_strip sample_lib [67, 97, 102, 101] = [67, 97, 102, 101]
       \<and> (\<exists>item\<in>set (case map_of (stores cafe_manager) ?st of None \<Rightarrow> [] | Some xs \<Rightarrow> xs).
             name item = ascii ''Cafe'')"
    unfolding cafe_store by (simp add: sample_defs costco_cafe_def ascii_def)
  have p1: "add_catalog_item sample_lib cafe_manager ?st [67, 97, 102, 233] ?cat 3 ?un
     = Inr (AlreadyExists (ascii ''Cafe'') ?st, cafe_manager)"
    using add_catalog_item_duplicate_check[of "[67, 97, 102, 233]" ?cat 3 sample_lib
        cafe_manager ?st ?un] lib by blast
  have inv: "ascii ''Cafe'' = [] \<or> ?cat = [] \<or> (0::real) \<le> 0" by simp
  have p2: "add_catalog_item sample_lib cafe_manager ?st (ascii ''Cafe'') ?cat 0 ?un
      = Inr (FillAllFields, cafe_manager)"
    using add_catalog_item_duplicate_check[of "ascii ''Cafe''" ?cat 0 sample_lib
        cafe_manager ?st ?un] inv by blast
  have v: "ascii ''cafe'' \<noteq> [] \<and> ?cat \<noteq> [] \<and> 0 < (3::real)" by (simp add: ascii_def)
  have c: "\<exists>item\<in>set (case map_of (stores cafe_manager) ?st of None \<Rightarrow> [] | Some xs \<Rightarrow> xs).
      str_lower sample_lib (name item) =
      str_lower sample_lib (normalize_text sample_lib (str_strip sample_lib (ascii ''cafe'')))"
    unfolding cafe_store by (simp add: normalize_text_def sample_defs costco_cafe_def ascii_def)
  have p3: "\<exists>x y s'. add_catalog_item sample_lib cafe_manager ?st (ascii ''cafe'') ?cat 3 ?un
       = Inr (AlreadyExists x y, s')"
    using add_catalog_item_duplicate_check[of "ascii ''cafe''" ?cat 3 sample_lib
        cafe_manager ?st ?un] v c by blast
  from p1 p2 p3 show ?thesis by blast
qed

end
